theory Spec2Isabelle
  imports Complex_Main "HOL-Library.Monad_Syntax"
begin

section \<open>Values shared by the training module and the checkpoint callback\<close>

text \<open>
  The exceptions the modelled code can raise, by their Python class.  \<open>ValueError\<close> carries
  the message where the source builds one.  \<open>TreeStructureError\<close> is the \<open>ValueError\<close> that
  \<open>jax.tree.map\<close> raises when its trees do not line up, \<open>ShapeError\<close> the \<open>TypeError\<close> JAX
  raises for operands whose shapes do not broadcast (or for an operand that is no array).
\<close>

datatype error =
    ValueError string
  | IndexError
  | KeyError string
  | AttributeError string
  | ZeroDivisionError
  | FileNotFoundError
  | TreeStructureError
  | ShapeError

subsection \<open>Tensors\<close>

text \<open>
  An array is its shape and its elements in row-major order.  Floating point numbers are
  modelled by the reals, without rounding; a quotient by zero, an infinity or a NaN in
  floating point, has no counterpart, so what is said of a quotient is said for a divisor
  that is not zero.  A Python scalar is the tensor of shape \<open>[]\<close>.  In a well-formed tensor
  the number of elements is the product of the shape.
\<close>

datatype tensor = Tensor (shape: "nat list") (elems: "real list")

definition wf_tensor :: "tensor \<Rightarrow> bool" where
  "wf_tensor a = (length (elems a) = prod_list (shape a))"

definition ones :: "nat list \<Rightarrow> tensor" where
  "ones sh = Tensor sh (replicate (prod_list sh) 1)"

definition tmap :: "(real \<Rightarrow> real) \<Rightarrow> tensor \<Rightarrow> tensor" where
  "tmap f a = Tensor (shape a) (map f (elems a))"

text \<open>Broadcasting of two shapes, aligned at the trailing axis (on reversed shapes).\<close>

fun broadcast_dims :: "nat list \<Rightarrow> nat list \<Rightarrow> nat list option" where
  "broadcast_dims [] ys = Some ys"
| "broadcast_dims (x # xs) [] = Some (x # xs)"
| "broadcast_dims (x # xs) (y # ys) =
     (if x = y \<or> y = 1 then map_option ((#) x) (broadcast_dims xs ys)
      else if x = 1 then map_option ((#) y) (broadcast_dims xs ys)
      else None)"

definition broadcast_shapes :: "nat list \<Rightarrow> nat list \<Rightarrow> nat list option" where
  "broadcast_shapes a b = map_option rev (broadcast_dims (rev a) (rev b))"

text \<open>All multi-indices of a shape in row-major order.\<close>

fun indices :: "nat list \<Rightarrow> nat list list" where
  "indices [] = [[]]"
| "indices (d # ds) = concat (map (\<lambda>i. map ((#) i) (indices ds)) [0..<d])"

text \<open>
  The row-major position, in an operand of shape \<open>sh\<close>, of the element that takes part at
  multi-index \<open>idx\<close> of the broadcast result: leading axes the operand lacks are dropped and
  an axis of extent one is read at position zero.
\<close>

fun offset_from :: "nat \<Rightarrow> nat list \<Rightarrow> nat list \<Rightarrow> nat" where
  "offset_from acc (d # ds) (i # rest) = offset_from (acc * d + (if d = 1 then 0 else i)) ds rest"
| "offset_from acc ds rest = acc"

definition bc_offset :: "nat list \<Rightarrow> nat list \<Rightarrow> nat" where
  "bc_offset sh idx = offset_from 0 sh (drop (length idx - length sh) idx)"

definition tbin :: "(real \<Rightarrow> real \<Rightarrow> real) \<Rightarrow> tensor \<Rightarrow> tensor \<Rightarrow> tensor option" where
  "tbin f a b =
     (case broadcast_shapes (shape a) (shape b) of
        None \<Rightarrow> None
      | Some s \<Rightarrow>
          Some (Tensor s
            (map (\<lambda>idx. f (elems a ! bc_offset (shape a) idx) (elems b ! bc_offset (shape b) idx))
               (indices s))))"

definition tadd :: "tensor \<Rightarrow> tensor \<Rightarrow> tensor option" where
  "tadd = tbin (+)"

definition tsub :: "tensor \<Rightarrow> tensor \<Rightarrow> tensor option" where
  "tsub = tbin (-)"

definition tmul :: "tensor \<Rightarrow> tensor \<Rightarrow> tensor option" where
  "tmul = tbin (*)"

definition tdiv :: "tensor \<Rightarrow> tensor \<Rightarrow> tensor option" where
  "tdiv = tbin (/)"

text \<open>\<open>t.squeeze((1, 2))\<close>: axes 1 and 2 must exist and have extent one.\<close>

fun squeeze12 :: "tensor \<Rightarrow> tensor option" where
  "squeeze12 (Tensor (n # d1 # d2 # ds) xs) =
     (if d1 = 1 \<and> d2 = 1 then Some (Tensor (n # ds) xs) else None)"
| "squeeze12 (Tensor sh xs) = None"

definition mean :: "tensor \<Rightarrow> real" where
  "mean a = sum_list (elems a) / real (length (elems a))"

subsection \<open>Parameter trees\<close>

text \<open>
  A parameter set is a nested dictionary with arrays at the leaves.  A dictionary node is
  the list of its items in sorted key order, the order in which JAX flattens a dictionary,
  so two dictionaries have the same keys exactly when their key lists are equal.
\<close>

datatype ptree = Leaf tensor | Node "(string \<times> ptree) list"

text \<open>
  \<open>jax.tree.map(f, a, b)\<close>: the structure of \<open>a\<close> decides.  The structure of \<open>b\<close> is checked
  against it before \<open>f\<close> is called on any leaf; where \<open>a\<close> has a leaf, \<open>b\<close> may hold a whole
  subtree, which \<open>f\<close> then receives in place of an array and fails on.
\<close>

fun tree_matches :: "ptree \<Rightarrow> ptree \<Rightarrow> bool"
  and items_match :: "(string \<times> ptree) list \<Rightarrow> (string \<times> ptree) list \<Rightarrow> bool" where
  "tree_matches (Leaf a) (Leaf b) = True"
| "tree_matches (Leaf a) (Node ys) = True"
| "tree_matches (Node xs) (Leaf b) = False"
| "tree_matches (Node xs) (Node ys) = items_match xs ys"
| "items_match [] [] = True"
| "items_match [] (y # ys) = False"
| "items_match (x # xs) [] = False"
| "items_match ((k, t) # xs) ((k', t') # ys) =
     (k = k' \<and> tree_matches t t' \<and> items_match xs ys)"

fun map_leaves2 :: "(tensor \<Rightarrow> tensor \<Rightarrow> tensor option) \<Rightarrow> ptree \<Rightarrow> ptree \<Rightarrow> ptree option"
  and map_items2 :: "(tensor \<Rightarrow> tensor \<Rightarrow> tensor option) \<Rightarrow> (string \<times> ptree) list \<Rightarrow>
        (string \<times> ptree) list \<Rightarrow> (string \<times> ptree) list option" where
  "map_leaves2 f (Leaf a) (Leaf b) = map_option Leaf (f a b)"
| "map_leaves2 f (Leaf a) (Node ys) = None"
| "map_leaves2 f (Node xs) (Leaf b) = None"
| "map_leaves2 f (Node xs) (Node ys) = map_option Node (map_items2 f xs ys)"
| "map_items2 f [] ys = Some []"
| "map_items2 f (x # xs) [] = None"
| "map_items2 f ((k, t) # xs) ((k', t') # ys) =
     (case map_leaves2 f t t' of
        None \<Rightarrow> None
      | Some r \<Rightarrow> map_option ((#) (k, r)) (map_items2 f xs ys))"

definition tree_map2 ::
  "(tensor \<Rightarrow> tensor \<Rightarrow> tensor option) \<Rightarrow> ptree \<Rightarrow> ptree \<Rightarrow> error + ptree" where
  "tree_map2 f a b =
     (if \<not> tree_matches a b then Inl TreeStructureError
      else (case map_leaves2 f a b of None \<Rightarrow> Inl ShapeError | Some r \<Rightarrow> Inr r))"

text \<open>The leaf reached by a path of keys.\<close>

fun leaf_at :: "ptree \<Rightarrow> string list \<Rightarrow> tensor option" where
  "leaf_at (Leaf a) [] = Some a"
| "leaf_at (Leaf a) (k # ks) = None"
| "leaf_at (Node xs) [] = None"
| "leaf_at (Node xs) (k # ks) =
     (case map_of xs k of None \<Rightarrow> None | Some t \<Rightarrow> leaf_at t ks)"

text \<open>Same keys at every dictionary and same shape at every leaf.\<close>

fun same_structure :: "ptree \<Rightarrow> ptree \<Rightarrow> bool"
  and same_items :: "(string \<times> ptree) list \<Rightarrow> (string \<times> ptree) list \<Rightarrow> bool" where
  "same_structure (Leaf a) (Leaf b) = (shape a = shape b)"
| "same_structure (Leaf a) (Node ys) = False"
| "same_structure (Node xs) (Leaf b) = False"
| "same_structure (Node xs) (Node ys) = same_items xs ys"
| "same_items [] [] = True"
| "same_items [] (y # ys) = False"
| "same_items (x # xs) [] = False"
| "same_items ((k, t) # xs) ((k', t') # ys) =
     (k = k' \<and> same_structure t t' \<and> same_items xs ys)"


section \<open>The training module (diffusion.py)\<close>

subsection \<open>Collaborators and configuration\<close>

type_synonym prng_key = nat

text \<open>
  The checkpoint monitors of \<open>cs.CkptMonitor\<close>.  The enumeration is declared outside the
  modelled files; only \<open>VAL_RELATIVE_ERROR_EMA\<close> is named by the module, every other member
  is given by its name.  The \<open>value\<close> of each member is the collaborator \<open>monitor_value\<close>.
\<close>

datatype CkptMonitor = VAL_RELATIVE_ERROR_EMA | OtherMonitor string

text \<open>The optimiser's state is opaque to the module: a step count and moment trees.\<close>

datatype opt_state = OptState nat "ptree list"

text \<open>
  What the module calls but does not define: the random number generator, the network,
  the diffusion process, automatic differentiation, the optimiser, the samplers,
  \<open>utils.relative_error\<close> and the values of the monitor enumeration.  Each is a total
  function here; an exception raised inside one of them is outside this model.
\<close>

record collab =
  random_split :: "prng_key \<Rightarrow> prng_key \<times> prng_key"
  random_uniform :: "prng_key \<Rightarrow> real"
  cond_fn :: "tensor \<Rightarrow> tensor option"
  model_init_fn :: "prng_key \<Rightarrow> tensor \<Rightarrow> tensor \<Rightarrow> bool \<Rightarrow> tensor option \<Rightarrow> ptree"
  model_apply :: "ptree \<Rightarrow> tensor \<Rightarrow> tensor \<Rightarrow> bool \<Rightarrow> tensor option \<Rightarrow> tensor"
  diffusion_sigma :: "tensor \<Rightarrow> tensor"
  diffusion_scale :: "tensor \<Rightarrow> tensor"
  diffusion_tmin :: real
  diffusion_tmax :: real
  noise_input :: "tensor \<Rightarrow> tensor \<Rightarrow> prng_key \<Rightarrow> tensor"
  noise_score :: "tensor \<Rightarrow> tensor \<Rightarrow> tensor \<Rightarrow> tensor"
  covsqrt_inverse :: "tensor \<Rightarrow> tensor"
  grad_loss :: "prng_key \<Rightarrow> tensor \<Rightarrow> tensor option \<Rightarrow> ptree \<Rightarrow> ptree"
  optimizer_init :: "ptree \<Rightarrow> opt_state"
  optimizer_update :: "ptree \<Rightarrow> opt_state \<Rightarrow> ptree \<times> opt_state"
  sde_sample ::
    "(tensor \<Rightarrow> tensor \<Rightarrow> error + tensor) \<Rightarrow> prng_key \<Rightarrow> nat list \<Rightarrow> nat \<Rightarrow> bool \<Rightarrow> error + tensor"
  samplers_compute_nll ::
    "(tensor \<Rightarrow> tensor \<Rightarrow> error + tensor) \<Rightarrow> prng_key \<Rightarrow> tensor \<Rightarrow> error + tensor"
  relative_error :: "tensor \<Rightarrow> tensor \<Rightarrow> tensor"
  monitor_value :: "CkptMonitor \<Rightarrow> string"

record config =
  epochs :: real
  ema_folding_count :: real
  time_step_count_sampling :: nat
  ckpt_monitor :: CkptMonitor

text \<open>
  The fields of a \<open>JaxLightning\<close> object.  \<open>params\<close>, \<open>params_ema\<close> and \<open>opt_state\<close> are
  attributes that do not exist until \<open>setup\<close> and \<open>configure_optimizers\<close> have set them.
\<close>

record jax_lightning =
  cfg :: config
  key :: prng_key
  train_data_std :: real
  x_shape :: "nat list"
  ema_ts :: real
  params :: "ptree option"
  params_ema :: "ptree option"
  opt_state :: "opt_state option"

text \<open>
  What the module and the checkpoint callback read of the trainer that drives them.
  Loggers are known by their identity.
\<close>

record trainer =
  lightning_module :: jax_lightning
  sanity_checking :: bool
  callback_metrics :: "string \<rightharpoonup> real"
  global_step :: nat
  is_global_zero :: bool
  loggers :: "nat list"

definition bind_result :: "error + 'a \<Rightarrow> ('a \<Rightarrow> error + 'b) \<Rightarrow> error + 'b" where
  "bind_result r f = (case r of Inl e \<Rightarrow> Inl e | Inr x \<Rightarrow> f x)"

definition or_shape_error :: "'a option \<Rightarrow> error + 'a" where
  "or_shape_error v = (case v of None \<Rightarrow> Inl ShapeError | Some x \<Rightarrow> Inr x)"

text \<open>Reading a key that a dictionary lacks raises \<open>KeyError\<close>.\<close>

definition get_item :: "(string \<rightharpoonup> 'a) \<Rightarrow> string \<Rightarrow> error + 'a" where
  "get_item d k = (case d k of None \<Rightarrow> Inl (KeyError k) | Some v \<Rightarrow> Inr v)"

text \<open>Reading an attribute that was never assigned raises \<open>AttributeError\<close>.\<close>

definition get_attr :: "string \<Rightarrow> 'a option \<Rightarrow> error + 'a" where
  "get_attr name v = (case v of None \<Rightarrow> Inl (AttributeError name) | Some x \<Rightarrow> Inr x)"

text \<open>The constructor: the EMA time constant is computed once, by Python's true division.\<close>

definition init_module ::
  "config \<Rightarrow> prng_key \<Rightarrow> nat list \<Rightarrow> real \<Rightarrow> error + jax_lightning" where
  "init_module c k first_batch_shape std =
     (if ema_folding_count c = 0 then Inl ZeroDivisionError
      else Inr \<lparr> cfg = c, key = k, train_data_std = std, x_shape = first_batch_shape,
                 ema_ts = epochs c / ema_folding_count c,
                 params = None, params_ema = None, opt_state = None \<rparr>)"

subsection \<open>setup and model initialisation\<close>

definition model_init :: "collab \<Rightarrow> prng_key \<Rightarrow> nat list \<Rightarrow> error + ptree" where
  "model_init env k xsh =
     (case xsh of
        [] \<Rightarrow> Inl IndexError
      | n # rest \<Rightarrow>
          (let x = ones xsh;
               t = ones [n];
               cond = cond_fn env x
           in Inr (model_init_fn env k x t False cond)))"

definition setup_stage :: "collab \<Rightarrow> jax_lightning \<Rightarrow> string \<Rightarrow> error + jax_lightning" where
  "setup_stage env self stage =
     (if stage = ''fit'' then
        (let (k, key_train) = random_split env (key self) in
         bind_result (model_init env key_train (x_shape self)) (\<lambda>p.
           Inr (self\<lparr> key := k, params := Some p, params_ema := Some p \<rparr>)))
      else if stage = ''val'' then Inr self
      else if stage = ''predict'' then Inr self
      else Inl (ValueError (''Unknown stage: '' @ stage)))"

definition configure_optimizers :: "collab \<Rightarrow> jax_lightning \<Rightarrow> error + jax_lightning" where
  "configure_optimizers env self =
     bind_result (get_attr ''params'' (params self)) (\<lambda>p.
       Inr (self\<lparr> opt_state := Some (optimizer_init env p) \<rparr>))"

subsection \<open>The scaled score function\<close>

text \<open>
  \<open>score(x, t, cond, params, train)\<close>.  A shape that does not broadcast, or a \<open>t\<close> that cannot
  be squeezed at axes 1 and 2, makes the call fail: the result is \<open>None\<close>.
\<close>

definition score ::
  "collab \<Rightarrow> jax_lightning \<Rightarrow> tensor \<Rightarrow> tensor \<Rightarrow> tensor option \<Rightarrow> ptree \<Rightarrow> bool \<Rightarrow> tensor option" where
  "score env self x t cond ps train =
     (let sigma = diffusion_sigma env t;
          scale = diffusion_scale env t;
          std = train_data_std self
      in do {
        d_in \<leftarrow> tadd (tmap (\<lambda>s. s ^ 2) sigma) (tmap (\<lambda>s. (s * std) ^ 2) scale);
        let input_scale = tmap (\<lambda>v. 1 / sqrt v) d_in;
        let cond' = (case cond of None \<Rightarrow> None | Some c \<Rightarrow> Some (tmap (\<lambda>v. v / std) c));
        x_in \<leftarrow> tmul x input_scale;
        t_in \<leftarrow> squeeze12 t;
        let out = model_apply env ps x_in t_in train cond';
        d_out \<leftarrow> tadd (tmap (\<lambda>s. s ^ 2) sigma) (tmap (\<lambda>s. s ^ 2 * std ^ 2) scale);
        tdiv out (tmap sqrt d_out)
      })"

subsection \<open>The loss\<close>

text \<open>\<open>jnp.linspace(0, 1, n)\<close>: \<open>n\<close> points from 0 to 1, both ends included.\<close>

definition linspace01 :: "nat \<Rightarrow> real list" where
  "linspace01 n = (if n = 1 then [0] else map (\<lambda>i. real i / real (n - 1)) [0..<n])"

text \<open>\<open>jnp.remainder(x, y)\<close> for \<open>y \<noteq> 0\<close>: the result has the sign of the divisor.\<close>

definition remainder :: "real \<Rightarrow> real \<Rightarrow> real" where
  "remainder x y = x - y * of_int \<lfloor>x / y\<rfloor>"

text \<open>Line 154: the time fractions \<open>u\<close> for an offset \<open>u0\<close> and a batch of \<open>n\<close> examples.\<close>

definition loss_u :: "real \<Rightarrow> nat \<Rightarrow> real list" where
  "loss_u u0 n = map (\<lambda>v. remainder (u0 + v) 1) (linspace01 n)"

text \<open>Lines 152 to 156: the times, of shape \<open>(n, 1, 1)\<close>, drawn from the key.\<close>

definition loss_t :: "collab \<Rightarrow> prng_key \<Rightarrow> nat \<Rightarrow> tensor" where
  "loss_t env k n =
     (let (k1, key_time) = random_split env k;
          u0 = random_uniform env key_time;
          u = loss_u u0 n
      in Tensor [n, 1, 1]
           (map (\<lambda>v. v * (diffusion_tmax env - diffusion_tmin env) + diffusion_tmin env) u))"

text \<open>Lines 158 and 159: the noised input, drawn from the key split a second time.\<close>

definition loss_xt :: "collab \<Rightarrow> prng_key \<Rightarrow> tensor \<Rightarrow> tensor \<Rightarrow> tensor" where
  "loss_xt env k x_data t =
     (let (k1, key_time) = random_split env k;
          (k2, key_noise) = random_split env k1
      in noise_input env x_data t key_noise)"

text \<open>Lines 160 to 165: the weighted error of the score at given draws.\<close>

definition flow_loss ::
  "collab \<Rightarrow> jax_lightning \<Rightarrow> tensor \<Rightarrow> tensor \<Rightarrow> tensor \<Rightarrow> tensor option \<Rightarrow> ptree \<Rightarrow> real option" where
  "flow_loss env self t xt x_data cond ps =
     (let target_score = noise_score env xt x_data t;
          weighting = tmap (\<lambda>s. s ^ 2) (diffusion_sigma env t)
      in do {
        sc \<leftarrow> score env self xt t cond ps True;
        err \<leftarrow> tsub sc target_score;
        w \<leftarrow> tmul (tmap (\<lambda>e. e ^ 2) (covsqrt_inverse env err)) weighting;
        Some (mean w)
      })"

definition loss ::
  "collab \<Rightarrow> jax_lightning \<Rightarrow> prng_key \<Rightarrow> tensor \<Rightarrow> tensor option \<Rightarrow> ptree \<Rightarrow>
     error + real \<times> (string \<times> real) list" where
  "loss env self k x_data cond ps =
     (case shape x_data of
        [] \<Rightarrow> Inl IndexError
      | n # rest \<Rightarrow>
          (let t = loss_t env k n;
               xt = loss_xt env k x_data t
           in bind_result (or_shape_error (flow_loss env self t xt x_data cond ps))
                (\<lambda>fl. Inr (fl, [(''flow_loss'', fl)]))))"

subsection \<open>The training step\<close>

text \<open>\<open>ema_update = lambda p, ema: ema + (p - ema) / self.ema_ts\<close>\<close>

definition ema_update :: "real \<Rightarrow> tensor \<Rightarrow> tensor \<Rightarrow> tensor option" where
  "ema_update ts p ema = do { d \<leftarrow> tsub p ema; tadd ema (tmap (\<lambda>v. v / ts) d) }"

text \<open>\<open>optax.apply_updates\<close> adds the updates to the parameters leaf by leaf.\<close>

definition apply_updates :: "ptree \<Rightarrow> ptree \<Rightarrow> error + ptree" where
  "apply_updates ps updates = tree_map2 tadd ps updates"

record step_result =
  step_loss :: real
  step_monitors :: "(string \<times> real) list"
  step_params :: ptree
  step_params_ema :: ptree
  step_opt_state :: opt_state

text \<open>
  \<open>loss_and_grad\<close> is \<open>jax.value_and_grad(self.loss, argnums=3, has_aux=True)\<close>: the value is
  that of \<open>loss\<close>, the gradient with respect to the parameters comes from the collaborator.
\<close>

definition step ::
  "collab \<Rightarrow> jax_lightning \<Rightarrow> prng_key \<Rightarrow> tensor \<Rightarrow> tensor option \<Rightarrow> ptree \<Rightarrow> ptree \<Rightarrow> opt_state \<Rightarrow>
     error + step_result" where
  "step env self k batch cond ps ps_ema os =
     bind_result (loss env self k batch cond ps) (\<lambda>(l, monitors).
       (let grads = grad_loss env k batch cond ps;
            (updates, os') = optimizer_update env grads os
        in bind_result (apply_updates ps updates) (\<lambda>ps'.
           bind_result (tree_map2 (ema_update (ema_ts self)) ps' ps_ema) (\<lambda>ps_ema'.
             Inr \<lparr> step_loss = l, step_monitors = monitors, step_params = ps',
                   step_params_ema = ps_ema', step_opt_state = os' \<rparr>))))"

text \<open>
  \<open>training_step\<close>: the attributes are read, \<open>step\<close> is called with the key split off the
  module's key, and the loss is evaluated once more at the returned \<open>params_ema\<close>.  The call
  \<open>self.optimizers().step()\<close>, which only advances the trainer's step counter, and the
  conversion of the outputs to torch tensors are left out.
\<close>

record training_outputs =
  out_loss :: real
  out_loss_ema :: real
  out_monitors :: "(string \<times> real) list"
  out_monitors_ema :: "(string \<times> real) list"

definition training_step ::
  "collab \<Rightarrow> jax_lightning \<Rightarrow> tensor \<Rightarrow> error + jax_lightning \<times> training_outputs" where
  "training_step env self batch =
     (let cond = cond_fn env batch;
          (k, key_train) = random_split env (key self)
      in bind_result (get_attr ''params'' (params self)) (\<lambda>ps.
         bind_result (get_attr ''params_ema'' (params_ema self)) (\<lambda>ps_ema.
         bind_result (get_attr ''opt_state'' (opt_state self)) (\<lambda>os.
         bind_result (step env self key_train batch cond ps ps_ema os) (\<lambda>r.
         bind_result (loss env self key_train batch cond (step_params_ema r)) (\<lambda>(l_ema, monitors_ema).
           Inr (self\<lparr> key := k, params := Some (step_params r),
                      params_ema := Some (step_params_ema r),
                      opt_state := Some (step_opt_state r) \<rparr>,
                \<lparr> out_loss = step_loss r, out_loss_ema = l_ema,
                  out_monitors = step_monitors r, out_monitors_ema = monitors_ema \<rparr>)))))))"

subsection \<open>Sampling and likelihood\<close>

text \<open>
  The closure handed to the samplers: a time without a shape, or of shape \<open>()\<close>, is spread
  over \<open>(n, 1, 1)\<close> with \<open>n\<close> the leading extent of the given shape.
\<close>

definition score_closure ::
  "collab \<Rightarrow> jax_lightning \<Rightarrow> nat list \<Rightarrow> tensor option \<Rightarrow> ptree \<Rightarrow> tensor \<Rightarrow> tensor \<Rightarrow> error + tensor" where
  "score_closure env self xsh cond ps x t =
     bind_result
       (if shape t = []
        then (case xsh of
                [] \<Rightarrow> Inl IndexError
              | n # rest \<Rightarrow> or_shape_error (tmul (ones [n, 1, 1]) t))
        else Inr t)
       (\<lambda>t'. or_shape_error (score env self x t' cond ps False))"

definition sample ::
  "collab \<Rightarrow> jax_lightning \<Rightarrow> prng_key \<Rightarrow> real \<Rightarrow> tensor option \<Rightarrow> nat list \<Rightarrow> ptree option \<Rightarrow> bool \<Rightarrow>
     error + tensor" where
  "sample env self k tmax cond xsh ps_arg keep_path =
     bind_result
       (case ps_arg of None \<Rightarrow> get_attr ''params_ema'' (params_ema self) | Some p \<Rightarrow> Inr p)
       (\<lambda>ps. sde_sample env (score_closure env self xsh cond ps) k xsh
                (time_step_count_sampling (cfg self)) keep_path)"


subsection \<open>The validation step\<close>

text \<open>The result is the module with its key advanced and the value of \<open>loss_val\<close>.\<close>

definition validation_step ::
  "collab \<Rightarrow> trainer \<Rightarrow> jax_lightning \<Rightarrow> tensor \<Rightarrow> error + jax_lightning \<times> real" where
  "validation_step env trainer self batch =
     (let (k, key_val) = random_split env (key self);
          self' = self\<lparr> key := k \<rparr>
      in if ckpt_monitor (cfg self) = VAL_RELATIVE_ERROR_EMA then
           (let cond = cond_fn env batch in
            bind_result (get_attr ''params_ema'' (params_ema self)) (\<lambda>pe.
            bind_result (sample env self' key_val 1 cond (shape batch) (Some pe) False) (\<lambda>samples.
              Inr (self', mean (relative_error env batch samples)))))
         else if sanity_checking trainer then Inr (self', - 1)
         else bind_result (get_item (callback_metrics trainer) (monitor_value env (ckpt_monitor (cfg self))))
                (\<lambda>m. Inr (self', m)))"

section \<open>The checkpoint callback (callbacks.py)\<close>

subsection \<open>Paths\<close>

text \<open>
  \<open>pathlib.Path\<close> on a POSIX system: a root (empty, one slash, or two slashes for a string
  that starts with exactly two) and the components, with empty components and single
  dots dropped.
\<close>

record posix_path =
  path_root :: string
  path_parts :: "string list"

text \<open>\<open>str.split(sep)\<close> for a separator of one character.\<close>

fun split_sep :: "char \<Rightarrow> string \<Rightarrow> string list" where
  "split_sep c [] = [[]]"
| "split_sep c (x # xs) =
     (if x = c then [] # split_sep c xs
      else (case split_sep c xs of [] \<Rightarrow> [[x]] | w # ws \<Rightarrow> (x # w) # ws))"

fun join_sep :: "string \<Rightarrow> string list \<Rightarrow> string" where
  "join_sep sep [] = []"
| "join_sep sep [w] = w"
| "join_sep sep (w # v # ws) = w @ sep @ join_sep sep (v # ws)"

definition parse_path :: "string \<Rightarrow> posix_path" where
  "parse_path s =
     (let (r, rel) =
        (if take 1 s \<noteq> ''/'' then ([], s)
         else if take 1 (drop 1 s) \<noteq> ''/'' \<or> take 1 (drop 2 s) = ''/'' then (''/'', drop 1 s)
         else (take 2 s, drop 2 s))
      in \<lparr> path_root = r,
           path_parts = filter (\<lambda>x. x \<noteq> [] \<and> x \<noteq> ''.'') (split_sep CHR ''/'' rel) \<rparr>)"

definition format_path :: "posix_path \<Rightarrow> string" where
  "format_path p = path_root p @ join_sep ''/'' (path_parts p)"

definition path_str :: "posix_path \<Rightarrow> string" where
  "path_str p = (if format_path p = [] then ''.'' else format_path p)"

definition parent :: "posix_path \<Rightarrow> posix_path" where
  "parent p = (if path_parts p = [] then p else p\<lparr> path_parts := butlast (path_parts p) \<rparr>)"

definition name :: "posix_path \<Rightarrow> string" where
  "name p = (if path_parts p = [] then [] else last (path_parts p))"

text \<open>\<open>str.rfind\<close> for one character: the last position, or \<open>-1\<close>.\<close>

fun rfind :: "char \<Rightarrow> string \<Rightarrow> int" where
  "rfind c [] = - 1"
| "rfind c (x # xs) =
     (let r = rfind c xs in if 0 \<le> r then r + 1 else if x = c then 0 else - 1)"

definition stem :: "posix_path \<Rightarrow> string" where
  "stem p =
     (let nm = name p; i = rfind CHR ''.'' nm
      in if 0 < i \<and> i < int (length nm) - 1 then take (nat i) nm else nm)"

text \<open>
  The \<open>/\<close> of a path and a string: the string is parsed as a path; an absolute one replaces
  the path, the components of a relative one are appended.
\<close>

definition joinpath :: "posix_path \<Rightarrow> string \<Rightarrow> posix_path" where
  "joinpath p seg =
     (let q = parse_path seg
      in if path_root q \<noteq> [] then q else p\<lparr> path_parts := path_parts p @ path_parts q \<rparr>)"

subsection \<open>Deriving the two directories\<close>

definition get_checkpoint_directories :: "string \<Rightarrow> posix_path \<times> posix_path" where
  "get_checkpoint_directories filepath =
     (let fp = parse_path filepath
      in (joinpath (parent fp) (stem fp), joinpath (parent fp) (stem fp @ ''_ema'')))"

subsection \<open>Storage, loggers and the callback object\<close>

text \<open>
  Persistent storage holds at most one serialised parameter tree per directory.
  \<open>PyTreeCheckpointer.save(directory, item, force)\<close> is library code and a collaborator of
  the callback: called on a storage with a directory, a tree and the \<open>force\<close> flag, it either
  raises, and the storage is as it was, or returns the storage it has written.
  \<open>shutil.rmtree\<close> raises on a directory that does not exist.
\<close>

type_synonym storage = "posix_path \<rightharpoonup> ptree"

type_synonym saver = "storage \<Rightarrow> posix_path \<Rightarrow> ptree \<Rightarrow> bool \<Rightarrow> error + storage"

definition rmtree :: "storage \<Rightarrow> posix_path \<Rightarrow> error + storage" where
  "rmtree st directory =
     (if st directory = None then Inl FileNotFoundError else Inr (st(directory := None)))"

text \<open>What a logger is handed: \<open>weakref.proxy(obj)\<close> or the object itself.\<close>

datatype handle = WeakProxy nat | StrongRef nat

text \<open>
  The world the callback acts on: the storage, the calls of \<open>after_save_checkpoint\<close> made so
  far (logger and argument, oldest first), and the links made by the parent class's
  \<open>_link_checkpoint\<close> (target and link path, oldest first).
\<close>

record world =
  storage_of :: storage
  notifications :: "(nat \<times> handle) list"
  links :: "(posix_path \<times> posix_path) list"

record model_checkpoint =
  callback_id :: nat
  last_global_step_saved :: nat
  last_checkpoint_saved :: string

subsection \<open>Saving, removing and linking\<close>

text \<open>
  The loop of \<open>_save_checkpoint\<close> over the zipped trees and directories, each saved with
  \<open>force=True\<close>.  The loop ends at the first save that raises; the result is the exception, if
  any, and the storage reached.
\<close>

fun save_each :: "saver \<Rightarrow> storage \<Rightarrow> (ptree \<times> posix_path) list \<Rightarrow> error option \<times> storage" where
  "save_each sv st [] = (None, st)"
| "save_each sv st ((ckpt, directory) # rest) =
     (case sv st directory ckpt True of
        Inl e \<Rightarrow> (Some e, st)
      | Inr st' \<Rightarrow> save_each sv st' rest)"

text \<open>The loop that notifies the loggers.\<close>

fun notify_each :: "nat \<Rightarrow> (nat \<times> handle) list \<Rightarrow> nat list \<Rightarrow> (nat \<times> handle) list" where
  "notify_each cb calls [] = calls"
| "notify_each cb calls (logger # rest) = notify_each cb (calls @ [(logger, WeakProxy cb)]) rest"

text \<open>
  \<open>_save_checkpoint\<close>.  The call changes the callback object and the world in place, so the
  result is the exception it ends with, if any, together with the callback and the world
  as the call leaves them.
\<close>

definition save_checkpoint ::
  "saver \<Rightarrow> model_checkpoint \<Rightarrow> trainer \<Rightarrow> world \<Rightarrow> string \<Rightarrow>
     error option \<times> model_checkpoint \<times> world" where
  "save_checkpoint sv self tr w filepath =
     (case get_attr ''params'' (params (lightning_module tr)) of
        Inl e \<Rightarrow> (Some e, self, w)
      | Inr ps \<Rightarrow>
          (case get_attr ''params_ema'' (params_ema (lightning_module tr)) of
             Inl e \<Rightarrow> (Some e, self, w)
           | Inr ps_ema \<Rightarrow>
               (let (d, d_ema) = get_checkpoint_directories filepath;
                    (failure, st') = save_each sv (storage_of w) (zip [ps, ps_ema] [d, d_ema])
                in (case failure of
                      Some e \<Rightarrow> (Some e, self, w\<lparr> storage_of := st' \<rparr>)
                    | None \<Rightarrow>
                        (let self' = self\<lparr> last_global_step_saved := global_step tr,
                                           last_checkpoint_saved := filepath \<rparr>;
                             calls' = (if is_global_zero tr
                                       then notify_each (callback_id self) (notifications w) (loggers tr)
                                       else notifications w)
                         in (None, self', w\<lparr> storage_of := st', notifications := calls' \<rparr>))))))"

fun remove_each :: "storage \<Rightarrow> posix_path list \<Rightarrow> error + storage" where
  "remove_each st [] = Inr st"
| "remove_each st (directory # rest) =
     bind_result (rmtree st directory) (\<lambda>st'. remove_each st' rest)"

definition remove_checkpoint :: "world \<Rightarrow> string \<Rightarrow> error + world" where
  "remove_checkpoint w filepath =
     (let (d, d_ema) = get_checkpoint_directories filepath
      in bind_result (remove_each (storage_of w) [d, d_ema]) (\<lambda>st'. Inr (w\<lparr> storage_of := st' \<rparr>)))"

text \<open>The loop of \<open>_link_checkpoint\<close>: the parent class links each directory to its link path.\<close>

fun link_each ::
  "(posix_path \<times> posix_path) list \<Rightarrow> (posix_path \<times> posix_path) list \<Rightarrow>
     (posix_path \<times> posix_path) list" where
  "link_each made [] = made"
| "link_each made ((directory, lp) # rest) = link_each (made @ [(directory, lp)]) rest"

definition link_checkpoint :: "world \<Rightarrow> string \<Rightarrow> string \<Rightarrow> world" where
  "link_checkpoint w filepath linkpath =
     (let lp = parse_path linkpath;
          linkpath' = joinpath (parent lp) (stem lp);
          linkpath_ema = joinpath (parent lp) (stem lp @ ''_ema'');
          (d, d_ema) = get_checkpoint_directories filepath
      in w\<lparr> links := link_each (links w) (zip [d, d_ema] [linkpath', linkpath_ema]) \<rparr>)"

section \<open>A small concrete instance\<close>

text \<open>
  One instance of every collaborator, used where a statement is exercised on concrete
  data: an identity network with a bias and a kernel, a diffusion with constant noise
  schedule, a gradient equal to the parameters and an optimiser that takes a tenth of the
  gradient off.
\<close>

fun map_leaves :: "(tensor \<Rightarrow> tensor) \<Rightarrow> ptree \<Rightarrow> ptree" where
  "map_leaves f (Leaf a) = Leaf (f a)"
| "map_leaves f (Node xs) = Node (map (\<lambda>(k, t). (k, map_leaves f t)) xs)"

definition demo_params :: ptree where
  "demo_params =
     Node [(''params'',
       Node [(''bias'', Leaf (Tensor [2] [1, 2])),
             (''kernel'', Leaf (Tensor [2, 2] [1, 0, 0, 1]))])]"

definition demo_monitor_value :: "CkptMonitor \<Rightarrow> string" where
  "demo_monitor_value m =
     (case m of VAL_RELATIVE_ERROR_EMA \<Rightarrow> ''val_relative_error_ema'' | OtherMonitor v \<Rightarrow> v)"

definition demo_optimizer_update :: "ptree \<Rightarrow> opt_state \<Rightarrow> ptree \<times> opt_state" where
  "demo_optimizer_update g os =
     (case os of OptState n ms \<Rightarrow> (map_leaves (tmap (\<lambda>v. - v / 10)) g, OptState (Suc n) ms))"

definition demo_env :: collab where
  "demo_env =
     \<lparr> random_split = (\<lambda>k. (2 * k + 1, 2 * k + 2)),
       random_uniform = (\<lambda>k. 9 / 10),
       cond_fn = (\<lambda>x. None),
       model_init_fn = (\<lambda>k x t train cond. demo_params),
       model_apply = (\<lambda>ps x t train cond. x),
       diffusion_sigma = tmap (\<lambda>v. 0),
       diffusion_scale = tmap (\<lambda>v. 1),
       diffusion_tmin = 0,
       diffusion_tmax = 1,
       noise_input = (\<lambda>x t k. x),
       noise_score = (\<lambda>xt x t. xt),
       covsqrt_inverse = (\<lambda>e. e),
       grad_loss = (\<lambda>k b c ps. ps),
       optimizer_init = (\<lambda>ps. OptState 0 []),
       optimizer_update = demo_optimizer_update,
       sde_sample = (\<lambda>f k sh n traj. f (ones sh) (Tensor [] [1])),
       samplers_compute_nll = (\<lambda>f k x. f x (Tensor [] [1])),
       relative_error = (\<lambda>a b. a),
       monitor_value = demo_monitor_value \<rparr>"

definition demo_cfg :: config where
  "demo_cfg =
     \<lparr> epochs = 10, ema_folding_count = 5, time_step_count_sampling = 4,
       ckpt_monitor = OtherMonitor ''train_loss'' \<rparr>"

definition demo_module :: jax_lightning where
  "demo_module =
     \<lparr> cfg = demo_cfg, key = 0, train_data_std = 1, x_shape = [2, 1, 1], ema_ts = 2,
       params = None, params_ema = None, opt_state = None \<rparr>"

definition demo_batch :: tensor where
  "demo_batch = Tensor [2, 1, 1] [3, 4]"

text \<open>The module after \<open>setup\<close> for the stage \<open>fit\<close> and \<open>configure_optimizers\<close>.\<close>

definition demo_ready :: jax_lightning where
  "demo_ready =
     demo_module\<lparr> key := 1, params := Some demo_params, params_ema := Some demo_params,
                  opt_state := Some (OptState 0 []) \<rparr>"

section \<open>The time sampling as the specification words it\<close>

text \<open>
  The fixed-stride rule of the specification, \<open>u_i = frac(u0 + i/N)\<close> for \<open>i\<close> in \<open>[0, N)\<close>, and
  its stratification property: sorted, each fraction is within \<open>1/N\<close> of its rank-order
  position \<open>i/N\<close>.  Both are written from the specification, to be compared with \<open>loss_u\<close>.
\<close>

definition spec_time_fractions :: "real \<Rightarrow> nat \<Rightarrow> real list" where
  "spec_time_fractions u0 n = map (\<lambda>i. frac (u0 + real i / real n)) [0..<n]"

definition evenly_spread :: "real list \<Rightarrow> bool" where
  "evenly_spread us =
     list_all (\<lambda>(i, u). \<bar>u - real i / real (length us)\<bar> \<le> 1 / real (length us))
       (enumerate 0 (sort us))"

text \<open>
  A trainer in the primary process with two loggers, a callback, and a world whose
  storage already holds something in the raw directory of \<open>/a/b/ckpt.tmp\<close>.
\<close>

definition demo_trainer :: trainer where
  "demo_trainer =
     \<lparr> lightning_module = demo_ready, sanity_checking = False, callback_metrics = Map.empty,
       global_step = 7, is_global_zero = True, loggers = [1, 2] \<rparr>"

text \<open>
  A checkpointer for the concrete instance: it refuses a relative directory and, without
  \<open>force\<close>, an existing one; otherwise it replaces what the directory holds.
\<close>

definition demo_saver :: saver where
  "demo_saver st directory ckpt force =
     (if path_root directory = [] then Inl (ValueError ''Checkpoint path should be absolute'')
      else if st directory \<noteq> None \<and> \<not> force then Inl (ValueError ''Destination already exists'')
      else Inr (st(directory \<mapsto> ckpt)))"

definition demo_callback :: model_checkpoint where
  "demo_callback = \<lparr> callback_id = 5, last_global_step_saved = 0, last_checkpoint_saved = [] \<rparr>"

definition demo_world :: world where
  "demo_world =
     \<lparr> storage_of = [parse_path ''/a/b/ckpt'' \<mapsto> Leaf (Tensor [] [0])],
       notifications = [], links = [] \<rparr>"

text \<open>
  A second instance of the score's collaborators: the noise level is the time itself, the
  scale is 2, the deviation of the data is 2, and the network adds the sum of the
  conditioning to every element of its input.
\<close>

definition scaled_env :: collab where
  "scaled_env =
     demo_env\<lparr> diffusion_sigma := (\<lambda>t. t), diffusion_scale := tmap (\<lambda>v. 2),
               model_apply := (\<lambda>ps x t train cond.
                 case cond of None \<Rightarrow> x | Some c \<Rightarrow> tmap (\<lambda>v. v + sum_list (elems c)) x) \<rparr>"

definition scaled_module :: jax_lightning where
  "scaled_module = demo_ready\<lparr> train_data_std := 2 \<rparr>"

section \<open>Facts about tensors\<close>

lemma bind_result_Inr_iff:
  "bind_result m f = Inr y \<longleftrightarrow> (\<exists>x. m = Inr x \<and> f x = Inr y)"
  by (cases m) (simp_all add: bind_result_def)

lemma bind_result_simps:
  "bind_result (Inl e) f = Inl e" "bind_result (Inr x) f = f x"
  by (simp_all add: bind_result_def)

lemma or_shape_error_Inr_iff: "or_shape_error v = Inr x \<longleftrightarrow> v = Some x"
  by (cases v) (simp_all add: or_shape_error_def)

lemma get_attr_Inr_iff: "get_attr nm v = Inr x \<longleftrightarrow> v = Some x"
  by (cases v) (simp_all add: get_attr_def)

lemma broadcast_dims_same: "broadcast_dims xs xs = Some xs"
  by (induction xs) simp_all

lemma broadcast_shapes_same: "broadcast_shapes s s = Some s"
  by (simp add: broadcast_shapes_def broadcast_dims_same)

lemma shape_tmap: "shape (tmap f a) = shape a"
  by (simp add: tmap_def)

lemma elems_tmap: "elems (tmap f a) = map f (elems a)"
  by (simp add: tmap_def)

lemma tbin_shape:
  "tbin f a b = Some c \<Longrightarrow> broadcast_shapes (shape a) (shape b) = Some (shape c)"
  by (auto simp: tbin_def split: option.splits)

lemma tbin_same_shape_ex:
  "shape a = shape b \<Longrightarrow> \<exists>c. tbin f a b = Some c \<and> shape c = shape a"
  by (simp add: tbin_def broadcast_shapes_same)

text \<open>Row-major positions of the multi-indices of a shape count up from zero.\<close>

lemma concat_blocks:
  "concat (map (\<lambda>i. map (\<lambda>j. i * p + j) [0..<p]) [0..<d]) = [0..<d * p]"
proof (induction d)
  case 0
  show ?case by simp
next
  case (Suc d)
  have "map (\<lambda>j. d * p + j) [0..<p] = map (\<lambda>j. j + d * p) [0..<p]"
    by (simp add: add.commute)
  also have "\<dots> = [d * p..<p + d * p]"
    by (rule map_add_upt)
  finally have 1: "map (\<lambda>j. d * p + j) [0..<p] = [d * p..<d * p + p]"
    by (simp only: add.commute)
  have 2: "[0..<d * p + p] = [0..<d * p] @ [d * p..<d * p + p]"
    by (rule upt_add_eq_append) simp
  have "concat (map (\<lambda>i. map (\<lambda>j. i * p + j) [0..<p]) [0..<Suc d]) =
        concat (map (\<lambda>i. map (\<lambda>j. i * p + j) [0..<p]) [0..<d]) @ map (\<lambda>j. d * p + j) [0..<p]"
    by simp
  also have "\<dots> = [0..<d * p] @ [d * p..<d * p + p]"
    by (simp only: Suc 1)
  also have "\<dots> = [0..<d * p + p]"
    by (rule 2[symmetric])
  also have "d * p + p = Suc d * p"
    by simp
  finally show ?case .
qed

lemma length_indices: "idx \<in> set (indices sh) \<Longrightarrow> length idx = length sh"
  by (induction sh arbitrary: idx) auto

lemma offset_from_acc:
  "length idx = length sh \<Longrightarrow>
   offset_from a sh idx = a * prod_list sh + offset_from 0 sh idx"
proof (induction sh arbitrary: idx a)
  case Nil
  then show ?case by simp
next
  case (Cons d ds)
  then obtain i rest where idx: "idx = i # rest" and len: "length rest = length ds"
    by (cases idx) auto
  define c where "c = (if d = 1 then 0 else i)"
  have "offset_from a (d # ds) idx = offset_from (a * d + c) ds rest"
    by (simp add: idx c_def)
  also have "\<dots> = (a * d + c) * prod_list ds + offset_from 0 ds rest"
    by (rule Cons.IH[OF len])
  finally have 1: "offset_from a (d # ds) idx = (a * d + c) * prod_list ds + offset_from 0 ds rest" .
  have "offset_from 0 (d # ds) idx = offset_from c ds rest"
    by (simp add: idx c_def)
  also have "\<dots> = c * prod_list ds + offset_from 0 ds rest"
    by (rule Cons.IH[OF len])
  finally have 2: "offset_from 0 (d # ds) idx = c * prod_list ds + offset_from 0 ds rest" .
  show ?case
    unfolding 1 2 by (simp add: algebra_simps)
qed

lemma bc_offset_Cons:
  assumes "length idx = length ds" "i < d"
  shows "bc_offset (d # ds) (i # idx) = i * prod_list ds + bc_offset ds idx"
proof -
  have c: "(if d = 1 then 0 else i) = i"
    using assms(2) by auto
  have "bc_offset (d # ds) (i # idx) = offset_from i ds idx"
    using assms(1) c by (simp add: bc_offset_def)
  also have "\<dots> = i * prod_list ds + offset_from 0 ds idx"
    by (rule offset_from_acc[OF assms(1)])
  finally show ?thesis
    using assms(1) by (simp add: bc_offset_def)
qed

lemma map_bc_offset_indices: "map (bc_offset sh) (indices sh) = [0..<prod_list sh]"
proof (induction sh)
  case Nil
  show ?case by (simp add: bc_offset_def)
next
  case (Cons d ds)
  have "map (bc_offset (d # ds)) (indices (d # ds)) =
        concat (map (\<lambda>i. map (\<lambda>idx. bc_offset (d # ds) (i # idx)) (indices ds)) [0..<d])"
    by (simp add: map_concat comp_def)
  also have "\<dots> = concat (map (\<lambda>i. map (\<lambda>idx. i * prod_list ds + bc_offset ds idx) (indices ds)) [0..<d])"
    by (intro arg_cong[where f = concat] map_cong refl)
       (simp add: bc_offset_Cons length_indices)
  also have "\<dots> = concat (map (\<lambda>i. map (\<lambda>j. i * prod_list ds + j) (map (bc_offset ds) (indices ds))) [0..<d])"
    by (simp add: comp_def)
  also have "\<dots> = [0..<d * prod_list ds]"
    by (simp only: Cons.IH concat_blocks)
  finally show ?case by simp
qed

text \<open>On operands of one shape a binary operation acts element by element.\<close>

lemma tbin_same_shape:
  assumes "shape a = shape b" "wf_tensor a" "wf_tensor b"
  shows "tbin f a b = Some (Tensor (shape a) (map2 f (elems a) (elems b)))"
proof -
  let ?s = "shape a"
  have la: "length (elems a) = prod_list ?s" and lb: "length (elems b) = prod_list ?s"
    using assms by (simp_all add: wf_tensor_def)
  have "map (\<lambda>idx. f (elems a ! bc_offset ?s idx) (elems b ! bc_offset ?s idx)) (indices ?s) =
        map (\<lambda>j. f (elems a ! j) (elems b ! j)) (map (bc_offset ?s) (indices ?s))"
    by (simp add: comp_def)
  also have "\<dots> = map (\<lambda>j. f (elems a ! j) (elems b ! j)) [0..<prod_list ?s]"
    by (simp only: map_bc_offset_indices)
  also have "\<dots> = map2 f (elems a) (elems b)"
    using la lb by (intro nth_equalityI) simp_all
  finally show ?thesis
    using assms(1) by (simp add: tbin_def broadcast_shapes_same)
qed

lemma wf_tensor_tmap: "wf_tensor a \<Longrightarrow> wf_tensor (tmap f a)"
  by (simp add: wf_tensor_def tmap_def)

text \<open>The exponential moving average, element by element, on leaves of one shape.\<close>

lemma ema_update_same_shape:
  assumes "shape p = shape e" "wf_tensor p" "wf_tensor e"
  shows "ema_update ts p e =
         Some (Tensor (shape e) (map2 (\<lambda>pv ev. ev + (pv - ev) / ts) (elems p) (elems e)))"
proof -
  let ?d = "Tensor (shape p) (map2 (-) (elems p) (elems e))"
  have d: "tsub p e = Some ?d"
    using assms by (simp add: tsub_def tbin_same_shape)
  have wfd: "wf_tensor (tmap (\<lambda>v. v / ts) ?d)"
    using assms by (simp add: wf_tensor_def tmap_def)
  have "tadd e (tmap (\<lambda>v. v / ts) ?d) =
        Some (Tensor (shape e) (map2 (+) (elems e) (map (\<lambda>v. v / ts) (map2 (-) (elems p) (elems e)))))"
    using assms wfd by (simp add: tadd_def tbin_same_shape shape_tmap) (simp add: tmap_def)
  moreover have "map2 (+) (elems e) (map (\<lambda>v. v / ts) (map2 (-) (elems p) (elems e))) =
                 map2 (\<lambda>pv ev. ev + (pv - ev) / ts) (elems p) (elems e)"
    using assms by (intro nth_equalityI) (simp_all add: wf_tensor_def)
  ultimately show ?thesis
    by (simp add: ema_update_def d)
qed

lemma ema_update_shape:
  assumes "ema_update ts p e = Some q" "shape p = shape e"
  shows "shape q = shape e"
proof -
  from assms(1) obtain d where d: "tsub p e = Some d" and q: "tadd e (tmap (\<lambda>v. v / ts) d) = Some q"
    by (auto simp: ema_update_def split: bind_splits)
  have "shape d = shape e"
    using tbin_shape[OF d[unfolded tsub_def]] assms(2) by (simp add: broadcast_shapes_same)
  then show ?thesis
    using tbin_shape[OF q[unfolded tadd_def]] by (simp add: shape_tmap broadcast_shapes_same)
qed

lemma broadcast_batch:
  "broadcast_shapes [n, a, b] [n, 1, 1] = Some [n, a, b]"
  by (simp add: broadcast_shapes_def)

lemma tbin_broadcast:
  "broadcast_shapes (shape a) (shape b) = Some s \<Longrightarrow> \<exists>c. tbin f a b = Some c \<and> shape c = s"
  by (simp add: tbin_def)

lemma indices3:
  "idx \<in> set (indices [n, a, b]) \<Longrightarrow> \<exists>i p q. idx = [i, p, q] \<and> i < n \<and> p < a \<and> q < b"
  by auto

lemma offset_batch:
  assumes "idx \<in> set (indices [n, a, b])"
  shows "bc_offset [n, 1, 1] idx = bc_offset [n, a, b] idx div (a * b)"
proof -
  from indices3[OF assms] obtain i p q where
    idx: "idx = [i, p, q]" and b: "i < n" "p < a" "q < b"
    by blast
  have 1: "bc_offset [n, 1, 1] idx = i"
    using b by (auto simp: bc_offset_def idx)
  have 2: "bc_offset [n, a, b] idx = i * (a * b) + (p * b + q)"
    using b by (auto simp: bc_offset_def idx algebra_simps)
  have "p * b + q < a * b"
  proof -
    have "p * b + q < p * b + b" using b by simp
    also have "\<dots> = Suc p * b" by simp
    also have "\<dots> \<le> a * b" using b by (intro mult_le_mono1) simp
    finally show ?thesis .
  qed
  then have "(i * (a * b) + (p * b + q)) div (a * b) = i"
    by (cases "a * b = 0") (simp_all del: mult_eq_0_iff)
  then show ?thesis
    by (simp only: 1 2)
qed

text \<open>
  A binary operation on a batch of shape \<open>(n, a, b)\<close> and one value per example, of shape
  \<open>(n, 1, 1)\<close>: every element of example \<open>i\<close> meets the value for example \<open>i\<close>.
\<close>

lemma tbin_batch:
  assumes "shape x = [n, a, b]" "shape s = [n, 1, 1]"
  shows "tbin f x s =
         Some (Tensor [n, a, b]
           (map (\<lambda>j. f (elems x ! j) (elems s ! (j div (a * b)))) [0..<n * a * b]))"
proof -
  have "map (\<lambda>idx. f (elems x ! bc_offset [n, a, b] idx) (elems s ! bc_offset [n, 1, 1] idx))
          (indices [n, a, b]) =
        map (\<lambda>idx. f (elems x ! bc_offset [n, a, b] idx)
                     (elems s ! (bc_offset [n, a, b] idx div (a * b))))
          (indices [n, a, b])"
    by (intro map_cong refl) (simp only: offset_batch)
  also have "\<dots> = map (\<lambda>j. f (elems x ! j) (elems s ! (j div (a * b))))
                      (map (bc_offset [n, a, b]) (indices [n, a, b]))"
    by (simp only: map_map comp_def)
  also have "\<dots> = map (\<lambda>j. f (elems x ! j) (elems s ! (j div (a * b)))) [0..<prod_list [n, a, b]]"
    by (simp only: map_bc_offset_indices)
  also have "prod_list [n, a, b] = n * a * b"
    by simp
  finally show ?thesis
    by (simp only: tbin_def assms broadcast_batch option.case)
qed


section \<open>Facts about parameter trees\<close>

lemma same_items_refl:
  "\<forall>x\<in>set xs. same_structure (snd x) (snd x) \<Longrightarrow> same_items xs xs"
  by (induction xs) auto

lemma same_structure_refl: "same_structure a a"
proof (induction a)
  case (Leaf a)
  show ?case by simp
next
  case (Node xs)
  have "\<forall>x\<in>set xs. same_structure (snd x) (snd x)"
  proof
    fix x assume "x \<in> set xs"
    moreover have "snd x \<in> Basic_BNFs.snds x"
      by (cases x) simp
    ultimately show "same_structure (snd x) (snd x)"
      by (rule Node)
  qed
  then show ?case
    by (simp add: same_items_refl)
qed

lemma same_structure_sym:
  "same_structure a b \<Longrightarrow> same_structure b a"
  "same_items xs ys \<Longrightarrow> same_items ys xs"
  by (induction a b and xs ys rule: same_structure_same_items.induct) auto

lemma same_structure_trans_aux:
  "(\<forall>c. same_structure a b \<longrightarrow> same_structure b c \<longrightarrow> same_structure a c)"
  "(\<forall>zs. same_items xs ys \<longrightarrow> same_items ys zs \<longrightarrow> same_items xs zs)"
proof (induction a b and xs ys rule: same_structure_same_items.induct)
  case (1 a b)
  show ?case
  proof (intro allI impI)
    fix c assume "same_structure (Leaf a) (Leaf b)" "same_structure (Leaf b) c"
    then show "same_structure (Leaf a) c" by (cases c) auto
  qed
next
  case (4 xs ys)
  show ?case
  proof (intro allI impI)
    fix c assume "same_structure (Node xs) (Node ys)" "same_structure (Node ys) c"
    then show "same_structure (Node xs) c" using 4 by (cases c) auto
  qed
next
  case 5
  show ?case by simp
next
  case (8 k t xs k' t' ys)
  show ?case
  proof (intro allI impI)
    fix zs assume a: "same_items ((k, t) # xs) ((k', t') # ys)" "same_items ((k', t') # ys) zs"
    then obtain k'' t'' zs' where zs: "zs = (k'', t'') # zs'"
      by (cases zs) auto
    show "same_items ((k, t) # xs) zs"
      using a 8 unfolding zs by auto
  qed
qed simp_all

lemma same_structure_trans:
  "same_structure a b \<Longrightarrow> same_structure b c \<Longrightarrow> same_structure a c"
  using same_structure_trans_aux(1) by blast

lemma same_structure_matches:
  "same_structure a b \<Longrightarrow> tree_matches a b"
  "same_items xs ys \<Longrightarrow> items_match xs ys"
  by (induction a b and xs ys rule: same_structure_same_items.induct) auto

text \<open>
  Mapping a shape-preserving leaf function over two trees of one structure succeeds
  where the function does, and the result has that structure.
\<close>

lemma map_leaves2_same_structure_aux:
  assumes f: "\<forall>p e q. shape p = shape e \<longrightarrow> f p e = Some q \<longrightarrow> shape q = shape p"
  shows "(\<forall>c. same_structure a b \<longrightarrow> map_leaves2 f a b = Some c \<longrightarrow> same_structure a c)"
    and "(\<forall>rs. same_items xs ys \<longrightarrow> map_items2 f xs ys = Some rs \<longrightarrow> same_items xs rs)"
proof (induction a b and xs ys rule: same_structure_same_items.induct)
  case (1 a b)
  show ?case
  proof (intro allI impI)
    fix c assume s: "same_structure (Leaf a) (Leaf b)" and m: "map_leaves2 f (Leaf a) (Leaf b) = Some c"
    from m obtain q where q: "f a b = Some q" and c: "c = Leaf q" by auto
    from s have "shape a = shape b" by simp
    with f q have "shape q = shape a" by blast
    then show "same_structure (Leaf a) c" by (simp add: c)
  qed
next
  case (4 xs ys)
  show ?case
  proof (intro allI impI)
    fix c assume s: "same_structure (Node xs) (Node ys)" and m: "map_leaves2 f (Node xs) (Node ys) = Some c"
    from m obtain rs where rs: "map_items2 f xs ys = Some rs" and c: "c = Node rs" by auto
    from s have "same_items xs ys" by simp
    with 4 rs have "same_items xs rs" by blast
    then show "same_structure (Node xs) c" by (simp add: c)
  qed
next
  case (8 k t xs k' t' ys)
  show ?case
  proof (intro allI impI)
    fix rs
    assume s: "same_items ((k, t) # xs) ((k', t') # ys)"
      and m: "map_items2 f ((k, t) # xs) ((k', t') # ys) = Some rs"
    from m obtain r rs' where r: "map_leaves2 f t t' = Some r"
      and rs': "map_items2 f xs ys = Some rs'" and rs: "rs = (k, r) # rs'"
      by (auto split: option.splits)
    from s have st: "same_structure t t'" and si: "same_items xs ys" by simp_all
    from 8(1) st r have "same_structure t r" by blast
    moreover from 8(2) si rs' have "same_items xs rs'" by blast
    ultimately show "same_items ((k, t) # xs) rs" by (simp add: rs)
  qed
qed simp_all

lemma map_leaves2_same_structure:
  assumes "\<forall>p e q. shape p = shape e \<longrightarrow> f p e = Some q \<longrightarrow> shape q = shape p"
    and "same_structure a b" "map_leaves2 f a b = Some c"
  shows "same_structure a c"
  using map_leaves2_same_structure_aux(1)[OF assms(1), of a b] assms(2,3) by blast

lemma map_leaves2_total_aux:
  assumes f: "\<forall>p e. shape p = shape e \<longrightarrow> (\<exists>q. f p e = Some q)"
  shows "same_structure a b \<longrightarrow> (\<exists>c. map_leaves2 f a b = Some c)"
    and "same_items xs ys \<longrightarrow> (\<exists>rs. map_items2 f xs ys = Some rs)"
proof (induction a b and xs ys rule: same_structure_same_items.induct)
  case (1 a b)
  show ?case
  proof
    assume "same_structure (Leaf a) (Leaf b)"
    then have "shape a = shape b" by simp
    with f obtain q where "f a b = Some q" by blast
    then show "\<exists>c. map_leaves2 f (Leaf a) (Leaf b) = Some c" by simp
  qed
next
  case (4 xs ys)
  then show ?case by auto
next
  case (8 k t xs k' t' ys)
  show ?case
  proof
    assume s: "same_items ((k, t) # xs) ((k', t') # ys)"
    then have st: "same_structure t t'" and si: "same_items xs ys" by simp_all
    from 8(1) st obtain r where r: "map_leaves2 f t t' = Some r" by blast
    from 8(2) si obtain rs' where rs': "map_items2 f xs ys = Some rs'" by blast
    show "\<exists>rs. map_items2 f ((k, t) # xs) ((k', t') # ys) = Some rs"
      by (simp add: r rs')
  qed
qed simp_all

lemma map_leaves2_total:
  assumes "\<forall>p e. shape p = shape e \<longrightarrow> (\<exists>q. f p e = Some q)" "same_structure a b"
  shows "\<exists>c. map_leaves2 f a b = Some c"
  using map_leaves2_total_aux(1)[OF assms(1), of a b] assms(2) by blast

text \<open>
  The leaf of the result at a path is the leaf function applied to the leaves of the two
  trees at that path.
\<close>

lemma map_leaves2_leaf_at_aux:
  "(\<forall>c path p. tree_matches a b \<longrightarrow> map_leaves2 f a b = Some c \<longrightarrow> leaf_at a path = Some p \<longrightarrow>
      (\<exists>e q. leaf_at b path = Some e \<and> f p e = Some q \<and> leaf_at c path = Some q))"
  "(\<forall>rs k t ks p. items_match xs ys \<longrightarrow> map_items2 f xs ys = Some rs \<longrightarrow>
      map_of xs k = Some t \<longrightarrow> leaf_at t ks = Some p \<longrightarrow>
      (\<exists>t' r e q. map_of ys k = Some t' \<and> map_of rs k = Some r \<and>
         leaf_at t' ks = Some e \<and> f p e = Some q \<and> leaf_at r ks = Some q))"
proof (induction f a b and f xs ys rule: map_leaves2_map_items2.induct)
  case (1 f a b)
  show ?case
  proof (intro allI impI)
    fix c path p
    assume m: "map_leaves2 f (Leaf a) (Leaf b) = Some c" and l: "leaf_at (Leaf a) path = Some p"
    from l have "path = []" "p = a" by (cases path; simp)+
    with m show "\<exists>e q. leaf_at (Leaf b) path = Some e \<and> f p e = Some q \<and> leaf_at c path = Some q"
      by auto
  qed
next
  case (4 f xs ys)
  show ?case
  proof (intro allI impI)
    fix c path p
    assume tm: "tree_matches (Node xs) (Node ys)"
      and m: "map_leaves2 f (Node xs) (Node ys) = Some c"
      and l: "leaf_at (Node xs) path = Some p"
    from m obtain rs where rs: "map_items2 f xs ys = Some rs" and c: "c = Node rs"
      by auto
    from l obtain k ks t where path: "path = k # ks" and t: "map_of xs k = Some t"
      and lt: "leaf_at t ks = Some p"
      by (cases path) (auto split: option.splits)
    from 4 tm rs t lt obtain t' r e q where
      "map_of ys k = Some t'" "map_of rs k = Some r" "leaf_at t' ks = Some e"
      "f p e = Some q" "leaf_at r ks = Some q"
      by (auto simp del: map_items2.simps) blast
    then show "\<exists>e q. leaf_at (Node ys) path = Some e \<and> f p e = Some q \<and> leaf_at c path = Some q"
      by (simp add: path c)
  qed
next
  case (7 f k t xs k' t' ys)
  show ?case
  proof (intro allI impI)
    fix rs ka ta ks p
    assume im: "items_match ((k, t) # xs) ((k', t') # ys)"
      and m: "map_items2 f ((k, t) # xs) ((k', t') # ys) = Some rs"
      and mo: "map_of ((k, t) # xs) ka = Some ta"
      and l: "leaf_at ta ks = Some p"
    from im have kk: "k' = k" and tm: "tree_matches t t'" and im': "items_match xs ys"
      by auto
    from m obtain r rs' where r: "map_leaves2 f t t' = Some r"
      and rs': "map_items2 f xs ys = Some rs'" and rs: "rs = (k, r) # rs'"
      by (auto split: option.splits)
    show "\<exists>t'a r e q. map_of ((k', t') # ys) ka = Some t'a \<and> map_of rs ka = Some r \<and>
            leaf_at t'a ks = Some e \<and> f p e = Some q \<and> leaf_at r ks = Some q"
    proof (cases "ka = k")
      case True
      with mo have "ta = t" by simp
      with 7(1) tm r l obtain e q where
        "leaf_at t' ks = Some e" "f p e = Some q" "leaf_at r ks = Some q"
        by blast
      then show ?thesis
        using True kk rs by auto
    next
      case False
      with mo have "map_of xs ka = Some ta" by simp
      with 7(2)[OF r] im' rs' l obtain t'a r' e q where
        "map_of ys ka = Some t'a" "map_of rs' ka = Some r'" "leaf_at t'a ks = Some e"
        "f p e = Some q" "leaf_at r' ks = Some q"
        by blast
      then show ?thesis
        using False kk rs by auto
    qed
  qed
qed simp_all

lemma tree_map2_leaf_at:
  assumes "tree_map2 f a b = Inr c" "leaf_at a path = Some p"
  shows "\<exists>e q. leaf_at b path = Some e \<and> f p e = Some q \<and> leaf_at c path = Some q"
proof -
  from assms(1) have "tree_matches a b" "map_leaves2 f a b = Some c"
    by (auto simp: tree_map2_def split: if_splits option.splits)
  with assms(2) show ?thesis
    using map_leaves2_leaf_at_aux(1)[of a b f] by blast
qed

text \<open>The result of a tree map has exactly the leaf paths of its first tree.\<close>

lemma map_leaves2_paths_aux:
  "(\<forall>c path. map_leaves2 f a b = Some c \<longrightarrow>
      (leaf_at c path \<noteq> None \<longleftrightarrow> leaf_at a path \<noteq> None))"
  "(\<forall>rs k. map_items2 f xs ys = Some rs \<longrightarrow>
      (case map_of rs k of
         None \<Rightarrow> map_of xs k = None
       | Some r \<Rightarrow> (\<exists>t. map_of xs k = Some t \<and>
           (\<forall>ks. leaf_at r ks \<noteq> None \<longleftrightarrow> leaf_at t ks \<noteq> None))))"
proof (induction f a b and f xs ys rule: map_leaves2_map_items2.induct)
  case (1 f a b)
  show ?case
  proof (intro allI impI)
    fix c path assume "map_leaves2 f (Leaf a) (Leaf b) = Some c"
    then obtain q where "c = Leaf q" by auto
    then show "leaf_at c path \<noteq> None \<longleftrightarrow> leaf_at (Leaf a) path \<noteq> None"
      by (cases path) auto
  qed
next
  case (4 f xs ys)
  show ?case
  proof (intro allI impI)
    fix c path assume "map_leaves2 f (Node xs) (Node ys) = Some c"
    then obtain rs where rs: "map_items2 f xs ys = Some rs" and c: "c = Node rs"
      by auto
    show "leaf_at c path \<noteq> None \<longleftrightarrow> leaf_at (Node xs) path \<noteq> None"
    proof (cases path)
      case Nil
      then show ?thesis by (simp add: c)
    next
      case (Cons k ks)
      from 4 rs have
        "case map_of rs k of None \<Rightarrow> map_of xs k = None
         | Some r \<Rightarrow> (\<exists>t. map_of xs k = Some t \<and> (\<forall>ks. leaf_at r ks \<noteq> None \<longleftrightarrow> leaf_at t ks \<noteq> None))"
        by blast
      then show ?thesis
      proof (cases "map_of rs k")
        case None
        with \<open>case map_of rs k of None \<Rightarrow> _ | Some r \<Rightarrow> _\<close> show ?thesis
          by (simp add: Cons c)
      next
        case (Some r)
        with \<open>case map_of rs k of None \<Rightarrow> _ | Some r \<Rightarrow> _\<close> obtain t where
          "map_of xs k = Some t" "\<And>ks. leaf_at r ks \<noteq> None \<longleftrightarrow> leaf_at t ks \<noteq> None"
          by auto
        then show ?thesis
          by (simp add: Cons c Some)
      qed
    qed
  qed
next
  case (7 f k t xs k' t' ys)
  show ?case
  proof (intro allI impI)
    fix rs ka
    assume m: "map_items2 f ((k, t) # xs) ((k', t') # ys) = Some rs"
    then obtain r rs' where r: "map_leaves2 f t t' = Some r"
      and rs': "map_items2 f xs ys = Some rs'" and rs: "rs = (k, r) # rs'"
      by (auto split: option.splits)
    show "case map_of rs ka of None \<Rightarrow> map_of ((k, t) # xs) ka = None
          | Some r \<Rightarrow> (\<exists>ta. map_of ((k, t) # xs) ka = Some ta \<and>
              (\<forall>ks. leaf_at r ks \<noteq> None \<longleftrightarrow> leaf_at ta ks \<noteq> None))"
    proof (cases "ka = k")
      case True
      from 7(1) r have "\<forall>ks. leaf_at r ks \<noteq> None \<longleftrightarrow> leaf_at t ks \<noteq> None"
        by blast
      then show ?thesis
        using True by (simp add: rs)
    next
      case False
      from 7(2)[OF r] rs' have
        "case map_of rs' ka of None \<Rightarrow> map_of xs ka = None
         | Some r \<Rightarrow> (\<exists>t. map_of xs ka = Some t \<and>
             (\<forall>ks. leaf_at r ks \<noteq> None \<longleftrightarrow> leaf_at t ks \<noteq> None))"
        by blast
      then show ?thesis
        using False by (cases "map_of rs' ka") (simp_all add: rs)
    qed
  qed
qed simp_all

lemma tree_map2_paths:
  assumes "tree_map2 f a b = Inr c"
  shows "leaf_at c path \<noteq> None \<longleftrightarrow> leaf_at a path \<noteq> None"
proof -
  from assms have "map_leaves2 f a b = Some c"
    by (auto simp: tree_map2_def split: if_splits option.splits)
  then show ?thesis
    using map_leaves2_paths_aux(1)[of f a b] by blast
qed

section \<open>Facts about paths\<close>

lemma split_sep_not_Nil: "split_sep c s \<noteq> []"
  by (induction s) (auto split: list.splits)

lemma split_sep_no_sep: "c \<notin> set s \<Longrightarrow> split_sep c s = [s]"
  by (induction s) auto

lemma split_sep_free: "x \<in> set (split_sep c s) \<Longrightarrow> c \<notin> set x"
proof (induction s arbitrary: x)
  case Nil
  then show ?case by simp
next
  case (Cons a s)
  show ?case
  proof (cases "a = c")
    case True
    with Cons show ?thesis by auto
  next
    case False
    obtain w ws where sp: "split_sep c s = w # ws"
      using split_sep_not_Nil[of c s] by (cases "split_sep c s") auto
    from Cons.prems False sp have "x = a # w \<or> x \<in> set ws"
      by simp
    then show ?thesis
    proof
      assume "x = a # w"
      moreover have "c \<notin> set w"
        using Cons.IH[of w] sp by simp
      ultimately show ?thesis using False by auto
    next
      assume "x \<in> set ws"
      then show ?thesis
        using Cons.IH[of x] sp by simp
    qed
  qed
qed

lemma parse_path_parts:
  assumes "x \<in> set (path_parts (parse_path s))"
  shows "CHR ''/'' \<notin> set x \<and> x \<noteq> [] \<and> x \<noteq> ''.''"
proof -
  from assms obtain rel where "x \<in> set (filter (\<lambda>x. x \<noteq> [] \<and> x \<noteq> ''.'') (split_sep CHR ''/'' rel))"
    by (auto simp: parse_path_def Let_def split: if_splits)
  then show ?thesis
    using split_sep_free[of x "CHR ''/''" rel] by auto
qed

lemma name_free: "CHR ''/'' \<notin> set (name (parse_path s))"
proof (cases "path_parts (parse_path s) = []")
  case True
  then show ?thesis by (simp add: name_def)
next
  case False
  then have "last (path_parts (parse_path s)) \<in> set (path_parts (parse_path s))"
    by simp
  from parse_path_parts[OF this] show ?thesis
    using False by (simp add: name_def)
qed

lemma stem_free: "CHR ''/'' \<notin> set (stem (parse_path s))"
proof -
  have "set (stem (parse_path s)) \<subseteq> set (name (parse_path s))"
    by (auto simp: stem_def Let_def dest: in_set_takeD)
  then show ?thesis
    using name_free[of s] by blast
qed

lemma parse_path_relative:
  assumes "CHR ''/'' \<notin> set seg"
  shows "parse_path seg =
         \<lparr> path_root = [], path_parts = (if seg = [] \<or> seg = ''.'' then [] else [seg]) \<rparr>"
proof -
  have "take 1 seg \<noteq> ''/''"
    using assms by (cases seg) auto
  then show ?thesis
    using assms by (simp add: parse_path_def split_sep_no_sep)
qed

lemma joinpath_segment:
  assumes "CHR ''/'' \<notin> set seg"
  shows "joinpath p seg =
         p\<lparr> path_parts := path_parts p @ (if seg = [] \<or> seg = ''.'' then [] else [seg]) \<rparr>"
  by (simp add: joinpath_def parse_path_relative[OF assms])

text \<open>
  The two directories in components: those of the parent, then the stem (unless it is
  empty or a single dot) for the raw directory, and the stem with \<open>_ema\<close> appended for the
  EMA directory.  The two are never the same directory.
\<close>

lemma checkpoint_directories_parts:
  "fst (get_checkpoint_directories p) =
     (parent (parse_path p))\<lparr> path_parts := path_parts (parent (parse_path p)) @
        (if stem (parse_path p) = [] \<or> stem (parse_path p) = ''.'' then []
         else [stem (parse_path p)]) \<rparr>"
  "snd (get_checkpoint_directories p) =
     (parent (parse_path p))\<lparr> path_parts := path_parts (parent (parse_path p)) @
        [stem (parse_path p) @ ''_ema''] \<rparr>"
proof -
  show "fst (get_checkpoint_directories p) =
     (parent (parse_path p))\<lparr> path_parts := path_parts (parent (parse_path p)) @
        (if stem (parse_path p) = [] \<or> stem (parse_path p) = ''.'' then []
         else [stem (parse_path p)]) \<rparr>"
    by (simp add: get_checkpoint_directories_def Let_def joinpath_segment[OF stem_free])
  have "CHR ''/'' \<notin> set (stem (parse_path p) @ ''_ema'')"
    using stem_free[of p] by simp
  from joinpath_segment[OF this]
  show "snd (get_checkpoint_directories p) =
     (parent (parse_path p))\<lparr> path_parts := path_parts (parent (parse_path p)) @
        [stem (parse_path p) @ ''_ema''] \<rparr>"
    by (simp add: get_checkpoint_directories_def Let_def)
qed

lemma checkpoint_directories_distinct:
  "fst (get_checkpoint_directories p) \<noteq> snd (get_checkpoint_directories p)"
proof
  assume "fst (get_checkpoint_directories p) = snd (get_checkpoint_directories p)"
  then have "path_parts (fst (get_checkpoint_directories p)) =
             path_parts (snd (get_checkpoint_directories p))"
    by simp
  then show False
    unfolding checkpoint_directories_parts by (simp split: if_splits)
qed

lemma checkpoint_directories_example:
  "map_prod path_str path_str (get_checkpoint_directories ''/a/b/ckpt.tmp'') =
   (''/a/b/ckpt'', ''/a/b/ckpt_ema'')"
  by code_simp

section \<open>Facts about the checkpoint callback\<close>

lemma notify_each_append:
  "notify_each cb calls ls = calls @ map (\<lambda>l. (l, WeakProxy cb)) ls"
  by (induction ls arbitrary: calls) simp_all

lemma link_each_append: "link_each made ps = made @ ps"
  by (induction ps arbitrary: made) auto

lemma save_checkpoint_first_fails:
  assumes "params (lightning_module tr) = Some ps" "params_ema (lightning_module tr) = Some pe"
    and "sv (storage_of w) (fst (get_checkpoint_directories filepath)) ps True = Inl err"
  shows "save_checkpoint sv self tr w filepath = (Some err, self, w)"
proof -
  obtain d e where de: "get_checkpoint_directories filepath = (d, e)"
    by (cases "get_checkpoint_directories filepath")
  show ?thesis
    using assms by (simp add: save_checkpoint_def get_attr_def de)
qed

lemma save_checkpoint_second_fails:
  assumes "params (lightning_module tr) = Some ps" "params_ema (lightning_module tr) = Some pe"
    and "sv (storage_of w) (fst (get_checkpoint_directories filepath)) ps True = Inr st1"
    and "sv st1 (snd (get_checkpoint_directories filepath)) pe True = Inl err"
  shows "save_checkpoint sv self tr w filepath = (Some err, self, w\<lparr> storage_of := st1 \<rparr>)"
proof -
  obtain d e where de: "get_checkpoint_directories filepath = (d, e)"
    by (cases "get_checkpoint_directories filepath")
  show ?thesis
    using assms by (simp add: save_checkpoint_def get_attr_def de)
qed

lemma save_checkpoint_succeeds:
  assumes "params (lightning_module tr) = Some ps" "params_ema (lightning_module tr) = Some pe"
    and "sv (storage_of w) (fst (get_checkpoint_directories filepath)) ps True = Inr st1"
    and "sv st1 (snd (get_checkpoint_directories filepath)) pe True = Inr st2"
  shows "save_checkpoint sv self tr w filepath =
         (None,
          self\<lparr> last_global_step_saved := global_step tr, last_checkpoint_saved := filepath \<rparr>,
          w\<lparr> storage_of := st2,
             notifications := notifications w @
               (if is_global_zero tr
                then map (\<lambda>l. (l, WeakProxy (callback_id self))) (loggers tr) else []) \<rparr>)"
proof -
  obtain d e where de: "get_checkpoint_directories filepath = (d, e)"
    by (cases "get_checkpoint_directories filepath")
  show ?thesis
    using assms by (simp add: save_checkpoint_def get_attr_def de notify_each_append Let_def)
qed

lemma remove_checkpoint_result:
  assumes "remove_checkpoint w filepath = Inr w'"
  shows "w' = w\<lparr> storage_of := (storage_of w)(fst (get_checkpoint_directories filepath) := None,
                                               snd (get_checkpoint_directories filepath) := None) \<rparr> \<and>
         storage_of w (fst (get_checkpoint_directories filepath)) \<noteq> None \<and>
         storage_of w (snd (get_checkpoint_directories filepath)) \<noteq> None"
proof -
  obtain d e where de: "get_checkpoint_directories filepath = (d, e)"
    by (cases "get_checkpoint_directories filepath")
  have ne: "d \<noteq> e"
    using checkpoint_directories_distinct[of filepath] by (simp add: de)
  show ?thesis
    using assms ne
    by (auto simp: remove_checkpoint_def de rmtree_def bind_result_Inr_iff split: if_splits)
qed

lemma remove_checkpoint_succeeds:
  assumes "storage_of w (fst (get_checkpoint_directories filepath)) \<noteq> None"
    "storage_of w (snd (get_checkpoint_directories filepath)) \<noteq> None"
  shows "\<exists>w'. remove_checkpoint w filepath = Inr w'"
proof -
  obtain d e where de: "get_checkpoint_directories filepath = (d, e)"
    by (cases "get_checkpoint_directories filepath")
  have ne: "d \<noteq> e"
    using checkpoint_directories_distinct[of filepath] by (simp add: de)
  show ?thesis
    using assms ne
    by (auto simp: remove_checkpoint_def de rmtree_def bind_result_simps)
qed

lemma link_checkpoint_result:
  "links (link_checkpoint w filepath linkpath) =
   links w @ [(fst (get_checkpoint_directories filepath), fst (get_checkpoint_directories linkpath)),
              (snd (get_checkpoint_directories filepath), snd (get_checkpoint_directories linkpath))]"
proof -
  obtain d e where de: "get_checkpoint_directories filepath = (d, e)"
    by (cases "get_checkpoint_directories filepath")
  show ?thesis
    by (simp add: link_checkpoint_def Let_def de link_each_append)
       (simp add: get_checkpoint_directories_def Let_def)
qed

section \<open>The concrete instance, evaluated\<close>

lemma demo_ready_reached:
  "bind_result (setup_stage demo_env demo_module ''fit'') (configure_optimizers demo_env) =
   Inr demo_ready"
  by (simp add: setup_stage_def model_init_def configure_optimizers_def bind_result_def
      get_attr_def demo_env_def demo_module_def demo_ready_def)

lemma demo_score:
  assumes "shape x = [2, 1, 1]" "wf_tensor x"
  shows "score demo_env demo_ready x (Tensor [2, 1, 1] [a, b]) None ps tr = Some x"
proof -
  have wf: "wf_tensor (Tensor [2, 1, 1] [u, v])" for u v :: real
    by (simp add: wf_tensor_def)
  have x: "x = Tensor [2, 1, 1] (elems x)"
    using assms(1) by (cases x) simp
  have len: "length (elems x) = 2"
    using assms by (simp add: wf_tensor_def)
  then obtain u v where uv: "elems x = [u, v]"
    by (cases "elems x"; cases "tl (elems x)"; cases "tl (tl (elems x))") auto
  show ?thesis
    apply (subst (2) x)
    apply (subst x)
    apply (simp add: score_def demo_env_def demo_ready_def demo_module_def tmap_def Let_def
        tadd_def tmul_def tdiv_def tbin_same_shape wf_tensor_def uv)
    done
qed

lemma demo_loss:
  "loss demo_env demo_ready k demo_batch None ps = Inr (0, [(''flow_loss'', 0)])"
proof -
  have wf: "wf_tensor (Tensor [2, 1, 1] [u, v])" for u v :: real
    by (simp add: wf_tensor_def)
  have u: "loss_u u0 2 = [remainder u0 1, remainder (u0 + 1) 1]" for u0
    by (simp add: loss_u_def linspace01_def numeral_2_eq_2)
  have t: "\<exists>a b. loss_t demo_env k 2 = Tensor [2, 1, 1] [a, b]"
    by (simp add: loss_t_def u demo_env_def)
  then obtain a b where ab: "loss_t demo_env k 2 = Tensor [2, 1, 1] [a, b]"
    by blast
  have xt: "loss_xt demo_env k demo_batch t = demo_batch" for t
    by (simp add: loss_xt_def demo_env_def)
  have sc: "score demo_env demo_ready demo_batch (Tensor [2, 1, 1] [a, b]) None ps True = Some demo_batch"
    by (rule demo_score) (simp_all add: demo_batch_def wf_tensor_def)
  have "flow_loss demo_env demo_ready (Tensor [2, 1, 1] [a, b]) demo_batch demo_batch None ps = Some 0"
    unfolding flow_loss_def Let_def
    apply (simp only: sc)
    apply (simp add: demo_env_def demo_batch_def tsub_def tmul_def tmap_def
        tbin_same_shape wf_tensor_def mean_def)
    done
  then show ?thesis
    by (simp add: loss_def demo_batch_def[THEN arg_cong, of shape] ab xt bind_result_def
        or_shape_error_def)
qed

lemma demo_step:
  "step demo_env demo_ready k demo_batch None demo_params demo_params (OptState 0 []) =
   Inr \<lparr> step_loss = 0, step_monitors = [(''flow_loss'', 0)],
         step_params =
           Node [(''params'',
             Node [(''bias'', Leaf (Tensor [2] [9 / 10, 9 / 5])),
                   (''kernel'', Leaf (Tensor [2, 2] [9 / 10, 0, 0, 9 / 10]))])],
         step_params_ema =
           Node [(''params'',
             Node [(''bias'', Leaf (Tensor [2] [19 / 20, 19 / 10])),
                   (''kernel'', Leaf (Tensor [2, 2] [19 / 20, 0, 0, 19 / 20]))])],
         step_opt_state = OptState 1 [] \<rparr>"
proof -
  have g: "grad_loss demo_env k demo_batch None demo_params = demo_params"
    by (simp add: demo_env_def)
  have u: "optimizer_update demo_env demo_params (OptState 0 []) =
           (Node [(''params'',
              Node [(''bias'', Leaf (Tensor [2] [- 1 / 10, - 1 / 5])),
                    (''kernel'', Leaf (Tensor [2, 2] [- 1 / 10, 0, 0, - 1 / 10]))])],
            OptState 1 [])"
    by (simp add: demo_env_def demo_optimizer_update_def demo_params_def tmap_def)
  have a: "apply_updates demo_params
             (Node [(''params'',
                Node [(''bias'', Leaf (Tensor [2] [- 1 / 10, - 1 / 5])),
                      (''kernel'', Leaf (Tensor [2, 2] [- 1 / 10, 0, 0, - 1 / 10]))])]) =
           Inr (Node [(''params'',
                  Node [(''bias'', Leaf (Tensor [2] [9 / 10, 9 / 5])),
                        (''kernel'', Leaf (Tensor [2, 2] [9 / 10, 0, 0, 9 / 10]))])])"
    by (simp add: apply_updates_def tree_map2_def demo_params_def tadd_def tbin_same_shape
        wf_tensor_def)
  have e: "tree_map2 (ema_update (ema_ts demo_ready))
             (Node [(''params'',
                Node [(''bias'', Leaf (Tensor [2] [9 / 10, 9 / 5])),
                      (''kernel'', Leaf (Tensor [2, 2] [9 / 10, 0, 0, 9 / 10]))])])
             demo_params =
           Inr (Node [(''params'',
                  Node [(''bias'', Leaf (Tensor [2] [19 / 20, 19 / 10])),
                        (''kernel'', Leaf (Tensor [2, 2] [19 / 20, 0, 0, 19 / 20]))])])"
    by (simp add: tree_map2_def demo_params_def ema_update_same_shape wf_tensor_def
        demo_ready_def demo_module_def)
  show ?thesis
    unfolding step_def
    by (simp only: demo_loss bind_result_simps g u a e Let_def prod.case)
qed

lemma demo_training_step:
  "training_step demo_env demo_ready demo_batch =
   Inr (demo_ready\<lparr> key := 3,
          params := Some (Node [(''params'',
             Node [(''bias'', Leaf (Tensor [2] [9 / 10, 9 / 5])),
                   (''kernel'', Leaf (Tensor [2, 2] [9 / 10, 0, 0, 9 / 10]))])]),
          params_ema := Some (Node [(''params'',
             Node [(''bias'', Leaf (Tensor [2] [19 / 20, 19 / 10])),
                   (''kernel'', Leaf (Tensor [2, 2] [19 / 20, 0, 0, 19 / 20]))])]),
          opt_state := Some (OptState 1 []) \<rparr>,
        \<lparr> out_loss = 0, out_loss_ema = 0,
          out_monitors = [(''flow_loss'', 0)], out_monitors_ema = [(''flow_loss'', 0)] \<rparr>)"
proof -
  have c: "cond_fn demo_env demo_batch = None"
    by (simp add: demo_env_def)
  have s: "random_split demo_env (key demo_ready) = (3, 4)"
    by (simp add: demo_env_def demo_ready_def)
  have p: "params demo_ready = Some demo_params" "params_ema demo_ready = Some demo_params"
    "opt_state demo_ready = Some (OptState 0 [])"
    by (simp_all add: demo_ready_def)
  show ?thesis
    unfolding training_step_def
    by (simp only: c s p get_attr_def option.case bind_result_simps demo_step demo_loss
        Let_def prod.case step_result.simps)
qed

section \<open>The training step\<close>

lemma step_InrD:
  assumes "step env self k batch cond ps ps_ema os = Inr r"
  shows "\<exists>l m. loss env self k batch cond ps = Inr (l, m) \<and>
           apply_updates ps (fst (optimizer_update env (grad_loss env k batch cond ps) os)) =
             Inr (step_params r) \<and>
           tree_map2 (ema_update (ema_ts self)) (step_params r) ps_ema = Inr (step_params_ema r) \<and>
           step_loss r = l \<and> step_monitors r = m \<and>
           step_opt_state r = snd (optimizer_update env (grad_loss env k batch cond ps) os)"
proof -
  obtain updates os' where ou:
    "optimizer_update env (grad_loss env k batch cond ps) os = (updates, os')"
    by (cases "optimizer_update env (grad_loss env k batch cond ps) os")
  show ?thesis
    using assms
    by (auto simp: step_def bind_result_Inr_iff Let_def ou)
qed

lemma training_step_InrD:
  assumes "training_step env self batch = Inr (self', out)"
  shows "\<exists>ps ps_ema os r l_ema m_ema.
           params self = Some ps \<and> params_ema self = Some ps_ema \<and> opt_state self = Some os \<and>
           step env self (snd (random_split env (key self))) batch (cond_fn env batch) ps ps_ema os = Inr r \<and>
           loss env self (snd (random_split env (key self))) batch (cond_fn env batch) (step_params_ema r) =
             Inr (l_ema, m_ema) \<and>
           self' = self\<lparr> key := fst (random_split env (key self)), params := Some (step_params r),
                          params_ema := Some (step_params_ema r),
                          opt_state := Some (step_opt_state r) \<rparr> \<and>
           out = \<lparr> out_loss = step_loss r, out_loss_ema = l_ema,
                   out_monitors = step_monitors r, out_monitors_ema = m_ema \<rparr>"
proof -
  obtain k1 key_train where sp: "random_split env (key self) = (k1, key_train)"
    by (cases "random_split env (key self)")
  show ?thesis
    using assms
    by (auto simp: training_step_def bind_result_Inr_iff get_attr_Inr_iff Let_def sp)
qed

section \<open>The time fractions of the loss\<close>

lemma linspace01_nth:
  "2 \<le> n \<Longrightarrow> i < n \<Longrightarrow> linspace01 n ! i = real i / real (n - 1)"
  by (simp add: linspace01_def)

lemma length_loss_u: "length (loss_u u0 n) = n"
  by (simp add: loss_u_def linspace01_def)

text \<open>
  The code's fractions have stride \<open>1/(N - 1)\<close>: the last one falls on the first again.
\<close>

lemma loss_u_nth:
  assumes "2 \<le> n" "i < n"
  shows "loss_u u0 n ! i = frac (u0 + real i / real (n - 1))"
  using assms by (simp add: loss_u_def linspace01_def remainder_def frac_def)

lemma loss_u_last_is_first:
  assumes "2 \<le> n"
  shows "loss_u u0 n ! (n - 1) = loss_u u0 n ! 0"
proof -
  have "loss_u u0 n ! (n - 1) = frac (u0 + 1)"
    using assms by (simp add: loss_u_nth)
  also have "\<dots> = frac u0"
    by (simp add: frac_def)
  also have "\<dots> = loss_u u0 n ! 0"
    using assms by (simp add: loss_u_nth)
  finally show ?thesis .
qed

text \<open>
  C1, at a batch of two examples and the offset \<open>u0 = 0.9\<close>.  The code computes the fractions
  \<open>[0.9, 0.9]\<close>, the fixed-stride rule \<open>frac(u0 + i/N)\<close> gives \<open>[0.9, 0.4]\<close>; the code's
  fractions, sorted, are not within \<open>1/N\<close> of their rank-order positions, those of the rule
  are.
\<close>

theorem loss_u_stride_includes_endpoint:
  "loss_u (9 / 10) 2 = [9 / 10, 9 / 10] \<and>
   spec_time_fractions (9 / 10) 2 = [9 / 10, 2 / 5] \<and>
   \<not> evenly_spread (loss_u (9 / 10) 2) \<and>
   evenly_spread (spec_time_fractions (9 / 10) 2)"
proof -
  have 1: "loss_u (9 / 10) 2 = [9 / 10, 9 / 10]"
    by (simp add: loss_u_def linspace01_def remainder_def numeral_2_eq_2)
  have f: "frac (7 / 5 :: real) = 2 / 5"
    by (simp add: frac_def)
  have 2: "spec_time_fractions (9 / 10) 2 = [9 / 10, 2 / 5]"
    using f by (simp add: spec_time_fractions_def numeral_2_eq_2 frac_def)
  have 3: "\<not> evenly_spread [9 / 10, 9 / 10]"
    by (simp add: evenly_spread_def)
  have 4: "evenly_spread [9 / 10, 2 / 5]"
    by (simp add: evenly_spread_def)
  show ?thesis
    by (simp only: 1 2 3 4 not_False_eq_True simp_thms)
qed

section \<open>The lifecycle stages of setup\<close>

text \<open>
  The dispatch of \<open>setup\<close> as the code has it.  It raises \<open>ValueError\<close> with the message
  \<open>Unknown stage: <stage>\<close> for every stage other than \<open>fit\<close>, \<open>val\<close> and \<open>predict\<close>.  For \<open>val\<close>
  and \<open>predict\<close> it returns and leaves the module as it was.  For \<open>fit\<close>, given a batch shape
  with a leading axis, it returns with \<open>params\<close> and \<open>params_ema\<close> set to the initialised
  parameters; for none of these three stages does it raise a \<open>ValueError\<close>.
\<close>

lemma setup_stage_cases:
  "(stage \<notin> {''fit'', ''val'', ''predict''} \<longrightarrow>
      setup_stage env self stage = Inl (ValueError (''Unknown stage: '' @ stage))) \<and>
   (stage \<in> {''val'', ''predict''} \<longrightarrow> setup_stage env self stage = Inr self) \<and>
   (stage = ''fit'' \<and> x_shape self \<noteq> [] \<longrightarrow>
      (\<exists>p. setup_stage env self stage =
             Inr (self\<lparr> key := fst (random_split env (key self)),
                        params := Some p, params_ema := Some p \<rparr>))) \<and>
   (stage \<in> {''fit'', ''val'', ''predict''} \<longrightarrow>
      (\<forall>msg. setup_stage env self stage \<noteq> Inl (ValueError msg)))"
proof (intro conjI impI)
  assume "stage \<notin> {''fit'', ''val'', ''predict''}"
  then show "setup_stage env self stage = Inl (ValueError (''Unknown stage: '' @ stage))"
    by (simp add: setup_stage_def)
next
  assume "stage \<in> {''val'', ''predict''}"
  then show "setup_stage env self stage = Inr self"
    by (auto simp: setup_stage_def)
next
  assume a: "stage = ''fit'' \<and> x_shape self \<noteq> []"
  then obtain n rest where sh: "x_shape self = n # rest"
    by (cases "x_shape self") auto
  show "\<exists>p. setup_stage env self stage =
             Inr (self\<lparr> key := fst (random_split env (key self)),
                        params := Some p, params_ema := Some p \<rparr>)"
    using a sh
    by (intro exI[of _ "model_init_fn env (snd (random_split env (key self))) (ones (x_shape self))
                          (ones [n]) False (cond_fn env (ones (x_shape self)))"])
       (simp add: setup_stage_def model_init_def bind_result_def Let_def split: prod.splits)
next
  assume "stage \<in> {''fit'', ''val'', ''predict''}"
  then show "\<forall>msg. setup_stage env self stage \<noteq> Inl (ValueError msg)"
    by (auto simp: setup_stage_def model_init_def bind_result_def Let_def
             split: prod.splits list.splits)
qed

text \<open>
  C2.  The code departs from the claim at the stage \<open>validate\<close>, one of the three stages for
  which \<open>setup\<close> is not to raise: whatever the module, \<open>setup\<close> raises \<open>ValueError\<close> with the
  message \<open>Unknown stage: validate\<close>.  The branch that passes through tests the literal
  \<open>val\<close> instead, so for the stage \<open>val\<close>, which is none of \<open>fit\<close>, \<open>validate\<close> and \<open>predict\<close>,
  \<open>setup\<close> returns without an error and leaves the module as it was.
\<close>

theorem setup_stage_validate_raises:
  "setup_stage env self ''validate'' = Inl (ValueError ''Unknown stage: validate'') \<and>
   ''val'' \<notin> {''fit'', ''validate'', ''predict''} \<and>
   setup_stage env self ''val'' = Inr self"
  by (simp add: setup_stage_def)

section \<open>The exponential moving average of the parameters\<close>

text \<open>
  C3.  When \<open>step\<close> returns, every leaf of the returned \<open>params_ema\<close> is the leaf of the given
  \<open>params_ema\<close> at the same path plus the difference between the returned \<open>params\<close> and it,
  divided by \<open>ema_ts\<close>; for leaves of one shape that is the formula element by element.
  The returned \<open>params_ema\<close> has exactly the leaves of the returned \<open>params\<close>.  \<open>ema_ts\<close> is
  \<open>epochs / ema_folding_count\<close>, set by the constructor, and neither \<open>setup\<close> nor a training
  step changes it.  (The reals have no infinities, so the model is the code where \<open>ema_ts\<close>
  is not zero.)
\<close>

theorem step_ema_update:
  assumes "step env self k batch cond ps ps_ema os = Inr r" and "ema_ts self \<noteq> 0"
  shows "(\<forall>path p. leaf_at (step_params r) path = Some p \<longrightarrow>
            (\<exists>e q. leaf_at ps_ema path = Some e \<and> leaf_at (step_params_ema r) path = Some q \<and>
               ema_update (ema_ts self) p e = Some q \<and>
               (shape p = shape e \<and> wf_tensor p \<and> wf_tensor e \<longrightarrow>
                  q = Tensor (shape e)
                        (map2 (\<lambda>pv ev. ev + (pv - ev) / ema_ts self) (elems p) (elems e))))) \<and>
         (\<forall>path. leaf_at (step_params_ema r) path \<noteq> None \<longleftrightarrow> leaf_at (step_params r) path \<noteq> None) \<and>
         (\<forall>c k0 sh std m. init_module c k0 sh std = Inr m \<longrightarrow>
            ema_ts m = epochs c / ema_folding_count c) \<and>
         (\<forall>stage m. setup_stage env self stage = Inr m \<longrightarrow> ema_ts m = ema_ts self) \<and>
         (\<forall>b m out. training_step env self b = Inr (m, out) \<longrightarrow> ema_ts m = ema_ts self)"
proof (intro conjI allI impI)
  from step_InrD[OF assms(1)] have
    tm: "tree_map2 (ema_update (ema_ts self)) (step_params r) ps_ema = Inr (step_params_ema r)"
    by blast
  {
    fix path p
    assume "leaf_at (step_params r) path = Some p"
    from tree_map2_leaf_at[OF tm this] obtain e q where
      e: "leaf_at ps_ema path = Some e" and u: "ema_update (ema_ts self) p e = Some q"
      and q: "leaf_at (step_params_ema r) path = Some q"
      by blast
    have "shape p = shape e \<and> wf_tensor p \<and> wf_tensor e \<longrightarrow>
          q = Tensor (shape e) (map2 (\<lambda>pv ev. ev + (pv - ev) / ema_ts self) (elems p) (elems e))"
      using u by (auto simp: ema_update_same_shape)
    with e u q show "\<exists>e q. leaf_at ps_ema path = Some e \<and> leaf_at (step_params_ema r) path = Some q \<and>
               ema_update (ema_ts self) p e = Some q \<and>
               (shape p = shape e \<and> wf_tensor p \<and> wf_tensor e \<longrightarrow>
                  q = Tensor (shape e)
                        (map2 (\<lambda>pv ev. ev + (pv - ev) / ema_ts self) (elems p) (elems e)))"
      by blast
  }
  {
    fix path
    show "leaf_at (step_params_ema r) path \<noteq> None \<longleftrightarrow> leaf_at (step_params r) path \<noteq> None"
      by (rule tree_map2_paths[OF tm])
  }
  {
    fix c k0 sh std m
    assume "init_module c k0 sh std = Inr m"
    then show "ema_ts m = epochs c / ema_folding_count c"
      by (auto simp: init_module_def split: if_splits)
  }
  {
    fix stage m
    assume "setup_stage env self stage = Inr m"
    then show "ema_ts m = ema_ts self"
      by (auto simp: setup_stage_def bind_result_Inr_iff Let_def split: if_splits prod.splits)
  }
  {
    fix b m out
    assume "training_step env self b = Inr (m, out)"
    from training_step_InrD[OF this] show "ema_ts m = ema_ts self"
      by auto
  }
qed

theorem step_ema_update_witness:
  "step demo_env demo_ready 4 demo_batch None demo_params demo_params (OptState 0 []) =
     Inr \<lparr> step_loss = 0, step_monitors = [(''flow_loss'', 0)],
           step_params =
             Node [(''params'',
               Node [(''bias'', Leaf (Tensor [2] [9 / 10, 9 / 5])),
                     (''kernel'', Leaf (Tensor [2, 2] [9 / 10, 0, 0, 9 / 10]))])],
           step_params_ema =
             Node [(''params'',
               Node [(''bias'', Leaf (Tensor [2] [19 / 20, 19 / 10])),
                     (''kernel'', Leaf (Tensor [2, 2] [19 / 20, 0, 0, 19 / 20]))])],
           step_opt_state = OptState 1 [] \<rparr> \<and>
   ema_ts demo_ready = 2 \<and>
   init_module demo_cfg 0 [2, 1, 1] 1 = Inr demo_module \<and>
   ema_ts demo_module = epochs demo_cfg / ema_folding_count demo_cfg \<and>
   (\<exists>e. leaf_at demo_params [''params'', ''bias''] = Some e \<and>
        ema_update 2 (Tensor [2] [9 / 10, 9 / 5]) e = Some (Tensor [2] [19 / 20, 19 / 10]) \<and>
        Tensor [2] [19 / 20, 19 / 10] =
          Tensor (shape e) (map2 (\<lambda>pv ev. ev + (pv - ev) / 2) [9 / 10, 9 / 5] (elems e)))"
proof -
  have ts: "ema_ts demo_ready \<noteq> 0" "ema_ts demo_ready = 2"
    by (simp_all add: demo_ready_def demo_module_def)
  have im: "init_module demo_cfg 0 [2, 1, 1] 1 = Inr demo_module"
    by (simp add: init_module_def demo_cfg_def demo_module_def)
  have lf: "leaf_at demo_params [''params'', ''bias''] = Some (Tensor [2] [1, 2])"
    by (simp add: demo_params_def)
  note th = step_ema_update[OF demo_step[of 4] ts(1)]
  have "leaf_at (Node [(''params'',
               Node [(''bias'', Leaf (Tensor [2] [9 / 10, 9 / 5])),
                     (''kernel'', Leaf (Tensor [2, 2] [9 / 10, 0, 0, 9 / 10]))])])
          [''params'', ''bias''] = Some (Tensor [2] [9 / 10, 9 / 5])"
    by simp
  with th[THEN conjunct1, rule_format, of "[''params'', ''bias'']" "Tensor [2] [9 / 10, 9 / 5]"]
  have "\<exists>e q. leaf_at demo_params [''params'', ''bias''] = Some e \<and>
      Some (Tensor [2] [19 / 20, 19 / 10]) = Some q \<and>
      ema_update (ema_ts demo_ready) (Tensor [2] [9 / 10, 9 / 5]) e = Some q \<and>
      (shape (Tensor [2] [9 / 10, 9 / 5]) = shape e \<and> wf_tensor (Tensor [2] [9 / 10, 9 / 5]) \<and> wf_tensor e \<longrightarrow>
         q = Tensor (shape e)
               (map2 (\<lambda>pv ev. ev + (pv - ev) / ema_ts demo_ready) (elems (Tensor [2] [9 / 10, 9 / 5])) (elems e)))"
    by simp
  then have 1: "\<exists>e. leaf_at demo_params [''params'', ''bias''] = Some e \<and>
        ema_update 2 (Tensor [2] [9 / 10, 9 / 5]) e = Some (Tensor [2] [19 / 20, 19 / 10]) \<and>
        Tensor [2] [19 / 20, 19 / 10] =
          Tensor (shape e) (map2 (\<lambda>pv ev. ev + (pv - ev) / 2) [9 / 10, 9 / 5] (elems e))"
    using lf by (auto simp: ts(2) wf_tensor_def)
  from th[THEN conjunct2, THEN conjunct2, THEN conjunct1, rule_format, OF im]
  have 2: "ema_ts demo_module = epochs demo_cfg / ema_folding_count demo_cfg" .
  show ?thesis
    using demo_step[of 4] ts(2) im 1 2 by simp
qed

section \<open>The rule that derives the two checkpoint directories\<close>

text \<open>
  C4.  For every requested path \<open>p\<close> the raw directory is \<open>parent(p) / stem(p)\<close> and the EMA
  directory is \<open>parent(p) / (stem(p) + '_ema')\<close>: in components, those of the parent followed
  by the stem (nothing is appended for a stem that is empty or a single dot) and by the
  stem with \<open>_ema\<close>; the suffix of the last component is not part of either.  The two
  directories differ.  For \<open>/a/b/ckpt.tmp\<close> they are \<open>/a/b/ckpt\<close> and \<open>/a/b/ckpt_ema\<close>.  A save
  that returns has passed these two directories, and no other, to the checkpointer; with a
  checkpointer that, with \<open>force\<close> set, replaces what they hold, every save returns and
  writes exactly these two directories.  Removing deletes exactly these two, and linking
  pairs them with the two directories that the same rule derives from the link path.
\<close>

theorem checkpoint_directories_rule:
  "get_checkpoint_directories p =
     (joinpath (parent (parse_path p)) (stem (parse_path p)),
      joinpath (parent (parse_path p)) (stem (parse_path p) @ ''_ema'')) \<and>
   fst (get_checkpoint_directories p) =
     (parent (parse_path p))\<lparr> path_parts := path_parts (parent (parse_path p)) @
        (if stem (parse_path p) = [] \<or> stem (parse_path p) = ''.'' then []
         else [stem (parse_path p)]) \<rparr> \<and>
   snd (get_checkpoint_directories p) =
     (parent (parse_path p))\<lparr> path_parts := path_parts (parent (parse_path p)) @
        [stem (parse_path p) @ ''_ema''] \<rparr> \<and>
   fst (get_checkpoint_directories p) \<noteq> snd (get_checkpoint_directories p) \<and>
   map_prod path_str path_str (get_checkpoint_directories ''/a/b/ckpt.tmp'') =
     (''/a/b/ckpt'', ''/a/b/ckpt_ema'') \<and>
   (\<forall>sv self (tr::trainer) w ps pe self' w'.
      params (lightning_module tr) = Some ps \<and> params_ema (lightning_module tr) = Some pe \<and>
      save_checkpoint sv self tr w p = (None, self', w') \<longrightarrow>
      (\<exists>st1. sv (storage_of w) (fst (get_checkpoint_directories p)) ps True = Inr st1 \<and>
             sv st1 (snd (get_checkpoint_directories p)) pe True = Inr (storage_of w'))) \<and>
   (\<forall>sv self (tr::trainer) w ps pe.
      params (lightning_module tr) = Some ps \<and> params_ema (lightning_module tr) = Some pe \<and>
      (\<forall>st c. sv st (fst (get_checkpoint_directories p)) c True =
                Inr (st(fst (get_checkpoint_directories p) \<mapsto> c))) \<and>
      (\<forall>st c. sv st (snd (get_checkpoint_directories p)) c True =
                Inr (st(snd (get_checkpoint_directories p) \<mapsto> c))) \<longrightarrow>
      (\<exists>self' w'. save_checkpoint sv self tr w p = (None, self', w') \<and>
         storage_of w' = (storage_of w)(fst (get_checkpoint_directories p) \<mapsto> ps,
                                        snd (get_checkpoint_directories p) \<mapsto> pe))) \<and>
   (\<forall>w w'. remove_checkpoint w p = Inr w' \<longrightarrow>
      storage_of w' = (storage_of w)(fst (get_checkpoint_directories p) := None,
                                     snd (get_checkpoint_directories p) := None)) \<and>
   (\<forall>w::world. storage_of w (fst (get_checkpoint_directories p)) \<noteq> None \<and>
        storage_of w (snd (get_checkpoint_directories p)) \<noteq> None \<longrightarrow>
        (\<exists>w'. remove_checkpoint w p = Inr w')) \<and>
   (\<forall>w linkpath. links (link_checkpoint w p linkpath) =
      links w @ [(fst (get_checkpoint_directories p), fst (get_checkpoint_directories linkpath)),
                 (snd (get_checkpoint_directories p), snd (get_checkpoint_directories linkpath))])"
proof (intro conjI allI impI)
  show "get_checkpoint_directories p =
     (joinpath (parent (parse_path p)) (stem (parse_path p)),
      joinpath (parent (parse_path p)) (stem (parse_path p) @ ''_ema''))"
    by (simp add: get_checkpoint_directories_def Let_def)
next
  show "fst (get_checkpoint_directories p) =
     (parent (parse_path p))\<lparr> path_parts := path_parts (parent (parse_path p)) @
        (if stem (parse_path p) = [] \<or> stem (parse_path p) = ''.'' then []
         else [stem (parse_path p)]) \<rparr>"
    by (rule checkpoint_directories_parts)
next
  show "snd (get_checkpoint_directories p) =
     (parent (parse_path p))\<lparr> path_parts := path_parts (parent (parse_path p)) @
        [stem (parse_path p) @ ''_ema''] \<rparr>"
    by (rule checkpoint_directories_parts)
next
  show "fst (get_checkpoint_directories p) \<noteq> snd (get_checkpoint_directories p)"
    by (rule checkpoint_directories_distinct)
next
  show "map_prod path_str path_str (get_checkpoint_directories ''/a/b/ckpt.tmp'') =
     (''/a/b/ckpt'', ''/a/b/ckpt_ema'')"
    by (rule checkpoint_directories_example)
next
  fix sv :: saver and self and tr :: trainer and w :: world and ps pe self' w'
  assume a: "params (lightning_module tr) = Some ps \<and> params_ema (lightning_module tr) = Some pe \<and>
      save_checkpoint sv self tr w p = (None, self', w')"
  then have pp: "params (lightning_module tr) = Some ps" "params_ema (lightning_module tr) = Some pe"
    and s: "save_checkpoint sv self tr w p = (None, self', w')"
    by simp_all
  show "\<exists>st1. sv (storage_of w) (fst (get_checkpoint_directories p)) ps True = Inr st1 \<and>
             sv st1 (snd (get_checkpoint_directories p)) pe True = Inr (storage_of w')"
  proof (cases "sv (storage_of w) (fst (get_checkpoint_directories p)) ps True")
    case (Inl err)
    from save_checkpoint_first_fails[where sv = sv and w = w and filepath = p and self = self,
        OF pp Inl] s
    show ?thesis
      by simp
  next
    case (Inr st1)
    show ?thesis
    proof (cases "sv st1 (snd (get_checkpoint_directories p)) pe True")
      case (Inl err)
      from save_checkpoint_second_fails[where sv = sv and w = w and filepath = p and self = self,
          OF pp Inr Inl] s
      show ?thesis
        by simp
    next
      case st2: (Inr st2)
      from save_checkpoint_succeeds[where sv = sv and w = w and filepath = p and self = self,
          OF pp Inr st2] s
      have "storage_of w' = st2"
        by auto
      with Inr st2 show ?thesis
        by simp
    qed
  qed
next
  fix sv :: saver and self and tr :: trainer and w :: world and ps pe
  assume a: "params (lightning_module tr) = Some ps \<and> params_ema (lightning_module tr) = Some pe \<and>
      (\<forall>st c. sv st (fst (get_checkpoint_directories p)) c True =
                Inr (st(fst (get_checkpoint_directories p) \<mapsto> c))) \<and>
      (\<forall>st c. sv st (snd (get_checkpoint_directories p)) c True =
                Inr (st(snd (get_checkpoint_directories p) \<mapsto> c)))"
  then have pp: "params (lightning_module tr) = Some ps" "params_ema (lightning_module tr) = Some pe"
    by simp_all
  have 1: "sv (storage_of w) (fst (get_checkpoint_directories p)) ps True =
             Inr ((storage_of w)(fst (get_checkpoint_directories p) \<mapsto> ps))"
    using a by blast
  have 2: "sv ((storage_of w)(fst (get_checkpoint_directories p) \<mapsto> ps))
             (snd (get_checkpoint_directories p)) pe True =
             Inr ((storage_of w)(fst (get_checkpoint_directories p) \<mapsto> ps,
                                 snd (get_checkpoint_directories p) \<mapsto> pe))"
    using a by blast
  show "\<exists>self' w'. save_checkpoint sv self tr w p = (None, self', w') \<and>
         storage_of w' = (storage_of w)(fst (get_checkpoint_directories p) \<mapsto> ps,
                                        snd (get_checkpoint_directories p) \<mapsto> pe)"
    unfolding save_checkpoint_succeeds[where sv = sv and w = w and filepath = p and self = self,
        OF pp 1 2]
    by simp
next
  fix w w'
  assume "remove_checkpoint w p = Inr w'"
  from remove_checkpoint_result[OF this]
  show "storage_of w' = (storage_of w)(fst (get_checkpoint_directories p) := None,
                                     snd (get_checkpoint_directories p) := None)"
    by simp
next
  fix w :: world
  assume "storage_of w (fst (get_checkpoint_directories p)) \<noteq> None \<and>
        storage_of w (snd (get_checkpoint_directories p)) \<noteq> None"
  then show "\<exists>w'. remove_checkpoint w p = Inr w'"
    using remove_checkpoint_succeeds by blast
next
  fix w linkpath
  show "links (link_checkpoint w p linkpath) =
      links w @ [(fst (get_checkpoint_directories p), fst (get_checkpoint_directories linkpath)),
                 (snd (get_checkpoint_directories p), snd (get_checkpoint_directories linkpath))]"
    by (rule link_checkpoint_result)
qed

text \<open>
  Saving to \<open>/a/b/ckpt.tmp\<close> and then removing it: the two directories hold the two
  parameter sets after the save and nothing after the removal.
\<close>

theorem checkpoint_directories_rule_witness:
  "\<exists>self' w' w''.
     save_checkpoint demo_saver demo_callback demo_trainer demo_world ''/a/b/ckpt.tmp'' =
       (None, self', w') \<and>
     storage_of w' (parse_path ''/a/b/ckpt'') = Some demo_params \<and>
     storage_of w' (parse_path ''/a/b/ckpt_ema'') = Some demo_params \<and>
     remove_checkpoint w' ''/a/b/ckpt.tmp'' = Inr w'' \<and>
     storage_of w'' (parse_path ''/a/b/ckpt'') = None \<and>
     storage_of w'' (parse_path ''/a/b/ckpt_ema'') = None"
proof -
  let ?p = "''/a/b/ckpt.tmp''"
  have d: "fst (get_checkpoint_directories ?p) = parse_path ''/a/b/ckpt''"
    "snd (get_checkpoint_directories ?p) = parse_path ''/a/b/ckpt_ema''"
    by code_simp+
  have ne: "parse_path ''/a/b/ckpt'' \<noteq> parse_path ''/a/b/ckpt_ema''"
    using checkpoint_directories_distinct[of ?p] unfolding d .
  have rd: "path_root (fst (get_checkpoint_directories ?p)) \<noteq> []"
    "path_root (snd (get_checkpoint_directories ?p)) \<noteq> []"
    by code_simp+
  have w1: "demo_saver st (fst (get_checkpoint_directories ?p)) c True =
              Inr (st(fst (get_checkpoint_directories ?p) \<mapsto> c))" for st c
    using rd(1) by (simp add: demo_saver_def)
  have w2: "demo_saver st (snd (get_checkpoint_directories ?p)) c True =
              Inr (st(snd (get_checkpoint_directories ?p) \<mapsto> c))" for st c
    using rd(2) by (simp add: demo_saver_def)
  have pq: "params (lightning_module demo_trainer) = Some demo_params"
    "params_ema (lightning_module demo_trainer) = Some demo_params"
    by (simp_all add: demo_trainer_def demo_ready_def)
  have pp: "params (lightning_module demo_trainer) = Some demo_params \<and>
            params_ema (lightning_module demo_trainer) = Some demo_params \<and>
            (\<forall>st c. demo_saver st (fst (get_checkpoint_directories ?p)) c True =
                      Inr (st(fst (get_checkpoint_directories ?p) \<mapsto> c))) \<and>
            (\<forall>st c. demo_saver st (snd (get_checkpoint_directories ?p)) c True =
                      Inr (st(snd (get_checkpoint_directories ?p) \<mapsto> c)))"
    by (intro conjI allI pq w1 w2)
  note th = checkpoint_directories_rule[of ?p]
  note sv = th[THEN conjunct2, THEN conjunct2, THEN conjunct2, THEN conjunct2, THEN conjunct2,
      THEN conjunct2, THEN conjunct1, THEN spec[where x = demo_saver],
      THEN spec[where x = demo_callback], THEN spec[where x = demo_trainer],
      THEN spec[where x = demo_world], THEN spec[where x = demo_params],
      THEN spec[where x = demo_params], THEN mp, OF pp]
  from sv obtain self' w' where
    s: "save_checkpoint demo_saver demo_callback demo_trainer demo_world ?p = (None, self', w')" and
    st: "storage_of w' = (storage_of demo_world)(fst (get_checkpoint_directories ?p) \<mapsto> demo_params,
                                        snd (get_checkpoint_directories ?p) \<mapsto> demo_params)"
    by blast
  have ex: "storage_of w' (fst (get_checkpoint_directories ?p)) \<noteq> None \<and>
        storage_of w' (snd (get_checkpoint_directories ?p)) \<noteq> None"
    by (simp add: st)
  note rs = th[THEN conjunct2, THEN conjunct2, THEN conjunct2, THEN conjunct2, THEN conjunct2,
      THEN conjunct2, THEN conjunct2, THEN conjunct2, THEN conjunct1, rule_format, OF ex]
  from rs obtain w'' where r: "remove_checkpoint w' ?p = Inr w''"
    by blast
  note rr = th[THEN conjunct2, THEN conjunct2, THEN conjunct2, THEN conjunct2, THEN conjunct2,
      THEN conjunct2, THEN conjunct2, THEN conjunct1, rule_format, OF r]
  have st': "storage_of w'' = (storage_of w')(fst (get_checkpoint_directories ?p) := None,
                                     snd (get_checkpoint_directories ?p) := None)"
    by (rule rr)
  show ?thesis
    using s r ne by (intro exI[of _ self'] exI[of _ w'] exI[of _ w'']) (simp add: st st' d)
qed

section \<open>The scaling of the score\<close>

lemma sqrt_25: "sqrt 25 = 5"
  using real_sqrt_abs[of 5] by simp

lemma sqrt_16: "sqrt 16 = 4"
  using real_sqrt_abs[of 4] by simp

text \<open>
  C5 (as the code has it).  Take a batch \<open>x\<close> of shape \<open>(n, a, b)\<close>, times \<open>t\<close> of shape
  \<open>(n, 1, 1)\<close>, a schedule whose \<open>sigma(t)\<close> and \<open>scale(t)\<close> are arrays of the shape of \<open>t\<close>, and a model
  whose output has the shape of its input.  Let \<open>d\<close> hold, for each example \<open>i\<close>, the number
  \<open>sigma(t)\<^sub>i\<^sup>2 + (scale(t)\<^sub>i * data_std)\<^sup>2\<close>; over the reals this is also
  \<open>sigma(t)\<^sub>i\<^sup>2 + scale(t)\<^sub>i\<^sup>2 * data_std\<^sup>2\<close>.  Then \<open>score\<close> returns: the model is applied to the
  input whose every element of example \<open>i\<close> is multiplied by \<open>1 / sqrt d\<^sub>i\<close>, to \<open>t\<close> squeezed to
  shape \<open>(n)\<close>, and to \<open>cond\<close> divided by \<open>data_std\<close> where there is one; every element of example
  \<open>i\<close> of the model's output is divided by \<open>sqrt d\<^sub>i\<close>; and the result has the shape of \<open>x\<close>.
\<close>

theorem score_scaling:
  assumes "shape x = [n, a, b]" and "shape t = [n, 1, 1]"
    and "shape (diffusion_sigma env t) = [n, 1, 1]" and "wf_tensor (diffusion_sigma env t)"
    and "shape (diffusion_scale env t) = [n, 1, 1]" and "wf_tensor (diffusion_scale env t)"
    and "\<forall>x' t' c'. shape (model_apply env ps x' t' train c') = shape x'"
  shows "\<exists>d x_in out r.
           d = map2 (\<lambda>s c. s ^ 2 + (c * train_data_std self) ^ 2)
                 (elems (diffusion_sigma env t)) (elems (diffusion_scale env t)) \<and>
           d = map2 (\<lambda>s c. s ^ 2 + c ^ 2 * train_data_std self ^ 2)
                 (elems (diffusion_sigma env t)) (elems (diffusion_scale env t)) \<and>
           length d = n \<and>
           x_in = Tensor [n, a, b]
                    (map (\<lambda>j. elems x ! j * (1 / sqrt (d ! (j div (a * b))))) [0..<n * a * b]) \<and>
           out = model_apply env ps x_in (Tensor [n] (elems t)) train
                   (case cond of None \<Rightarrow> None
                    | Some c \<Rightarrow> Some (tmap (\<lambda>v. v / train_data_std self) c)) \<and>
           r = Tensor [n, a, b]
                 (map (\<lambda>j. elems out ! j / sqrt (d ! (j div (a * b)))) [0..<n * a * b]) \<and>
           score env self x t cond ps train = Some r \<and>
           shape r = shape x"
proof -
  let ?sg = "diffusion_sigma env t"
  let ?sc = "diffusion_scale env t"
  let ?std = "train_data_std self"
  let ?A = "tmap (\<lambda>s. s ^ 2) ?sg"
  let ?B = "tmap (\<lambda>s. (s * ?std) ^ 2) ?sc"
  let ?B' = "tmap (\<lambda>s. s ^ 2 * ?std ^ 2) ?sc"
  define d where "d = map2 (\<lambda>s c. s ^ 2 + (c * ?std) ^ 2) (elems ?sg) (elems ?sc)"
  define x_in where "x_in = Tensor [n, a, b]
                    (map (\<lambda>j. elems x ! j * (1 / sqrt (d ! (j div (a * b))))) [0..<n * a * b])"
  define out where "out = model_apply env ps x_in (Tensor [n] (elems t)) train
                   (case cond of None \<Rightarrow> None | Some c \<Rightarrow> Some (tmap (\<lambda>v. v / ?std) c))"
  define r where "r = Tensor [n, a, b]
                 (map (\<lambda>j. elems out ! j / sqrt (d ! (j div (a * b)))) [0..<n * a * b])"
  have lsg: "length (elems ?sg) = n" and lsc: "length (elems ?sc) = n"
    using assms(3-6) by (simp_all add: wf_tensor_def)
  have ld: "length d = n"
    by (simp add: d_def lsg lsc)
  have d2: "d = map2 (\<lambda>s c. s ^ 2 + c ^ 2 * ?std ^ 2) (elems ?sg) (elems ?sc)"
    by (simp add: d_def power_mult_distrib)
  have inb: "j div (a * b) < n" if "j < n * a * b" for j
  proof -
    have "j < n * (a * b)" using that by (simp add: mult.assoc)
    then show ?thesis
      by (cases "a * b = 0") (simp_all add: less_mult_imp_div_less del: mult_eq_0_iff)
  qed
  have sAB: "shape ?A = shape ?B"
    by (simp only: shape_tmap assms)
  have "tadd ?A ?B = Some (Tensor (shape ?A) (map2 (+) (elems ?A) (elems ?B)))"
    unfolding tadd_def using assms(4,6)
    by (intro tbin_same_shape sAB wf_tensor_tmap)
  moreover have "map2 (+) (elems ?A) (elems ?B) = d"
    by (simp add: d_def elems_tmap zip_map_map map_zip_map split_def comp_def)
  ultimately have sum_in: "tadd ?A ?B = Some (Tensor [n, 1, 1] d)"
    by (simp add: shape_tmap assms(3))
  have "(\<lambda>s. (s * ?std) ^ 2) = (\<lambda>s. s ^ 2 * ?std ^ 2)"
    by (intro ext) (simp add: power_mult_distrib)
  then have sum_out: "tadd ?A ?B' = Some (Tensor [n, 1, 1] d)"
    using sum_in by simp
  have "tmul x (tmap (\<lambda>v. 1 / sqrt v) (Tensor [n, 1, 1] d)) =
        Some (Tensor [n, a, b]
          (map (\<lambda>j. elems x ! j * elems (tmap (\<lambda>v. 1 / sqrt v) (Tensor [n, 1, 1] d)) ! (j div (a * b)))
             [0..<n * a * b]))"
    unfolding tmul_def by (rule tbin_batch) (simp_all add: assms(1) shape_tmap)
  moreover have
    "map (\<lambda>j. elems x ! j * elems (tmap (\<lambda>v. 1 / sqrt v) (Tensor [n, 1, 1] d)) ! (j div (a * b)))
       [0..<n * a * b] =
     map (\<lambda>j. elems x ! j * (1 / sqrt (d ! (j div (a * b))))) [0..<n * a * b]"
    by (intro map_cong refl) (simp add: elems_tmap ld inb)
  ultimately have xin: "tmul x (tmap (\<lambda>v. 1 / sqrt v) (Tensor [n, 1, 1] d)) = Some x_in"
    by (simp only: x_in_def)
  obtain xs where t: "t = Tensor [n, 1, 1] xs"
    using assms(2) by (cases t) auto
  have tin: "squeeze12 t = Some (Tensor [n] (elems t))"
    by (simp add: t)
  have so: "shape out = [n, a, b]"
    using assms(7) by (simp add: out_def x_in_def)
  have "tdiv out (tmap sqrt (Tensor [n, 1, 1] d)) =
        Some (Tensor [n, a, b]
          (map (\<lambda>j. elems out ! j / elems (tmap sqrt (Tensor [n, 1, 1] d)) ! (j div (a * b)))
             [0..<n * a * b]))"
    unfolding tdiv_def by (rule tbin_batch) (simp_all add: so shape_tmap)
  moreover have
    "map (\<lambda>j. elems out ! j / elems (tmap sqrt (Tensor [n, 1, 1] d)) ! (j div (a * b))) [0..<n * a * b] =
     map (\<lambda>j. elems out ! j / sqrt (d ! (j div (a * b)))) [0..<n * a * b]"
    by (intro map_cong refl) (simp add: elems_tmap ld inb)
  ultimately have res: "tdiv out (tmap sqrt (Tensor [n, 1, 1] d)) = Some r"
    by (simp only: r_def)
  have sc: "score env self x t cond ps train = Some r"
    unfolding score_def Let_def
    by (simp only: sum_in sum_out xin tin res out_def[symmetric] Option.bind.simps)
  have sr: "shape r = shape x"
    by (simp add: r_def assms(1))
  show ?thesis
    by (intro exI[of _ d] exI[of _ x_in] exI[of _ out] exI[of _ r] conjI d_def d2 ld x_in_def
        out_def r_def sc sr)
qed
theorem score_scaling_witness:
  "score scaled_env scaled_module (Tensor [2, 1, 2] [5, 10, 4, 8]) (Tensor [2, 1, 1] [3, 0])
     (Some (Tensor [2] [4, 6])) demo_params True =
     Some (Tensor [2, 1, 2] [6 / 5, 7 / 5, 3 / 2, 7 / 4]) \<and>
   map2 (\<lambda>s c. s ^ 2 + (c * 2) ^ 2) [3, 0] [2, 2] = [25, 16 :: real] \<and>
   shape (Tensor [2, 1, 2] [6 / 5, 7 / 5, 3 / 2, 7 / 4]) = shape (Tensor [2, 1, 2] [5, 10, 4, 8])"
proof -
  let ?x = "Tensor [2, 1, 2] [5, 10, 4, 8]"
  let ?t = "Tensor [2, 1, 1] [3, 0]"
  let ?c = "Tensor [2] [4, 6]"
  have sg: "diffusion_sigma scaled_env ?t = ?t"
    and sc: "diffusion_scale scaled_env ?t = Tensor [2, 1, 1] [2, 2]"
    and std: "train_data_std scaled_module = 2"
    by (simp_all add: scaled_env_def scaled_module_def demo_ready_def tmap_def)
  have ma: "model_apply scaled_env ps x' t' tr (Some c) = tmap (\<lambda>v. v + sum_list (elems c)) x'"
    for ps x' t' tr c
    by (simp add: scaled_env_def)
  have h: "shape ?x = [2, 1, 2]" "shape ?t = [2, 1, 1]"
    "shape (diffusion_sigma scaled_env ?t) = [2, 1, 1]" "wf_tensor (diffusion_sigma scaled_env ?t)"
    "shape (diffusion_scale scaled_env ?t) = [2, 1, 1]" "wf_tensor (diffusion_scale scaled_env ?t)"
    unfolding sg sc by (simp_all add: wf_tensor_def)
  have m: "\<forall>x' t' c'. shape (model_apply scaled_env demo_params x' t' True c') = shape x'"
    by (simp add: scaled_env_def shape_tmap split: option.splits)
  have up: "[0..<2 * 1 * 2] = [0, 1, 2, 3]"
    by code_simp
  from score_scaling[OF h m, of scaled_module "Some ?c"] obtain d x_in out r where
    d: "d = map2 (\<lambda>s c. s ^ 2 + (c * train_data_std scaled_module) ^ 2)
                 (elems (diffusion_sigma scaled_env ?t)) (elems (diffusion_scale scaled_env ?t))"
    and x_in: "x_in = Tensor [2, 1, 2]
                    (map (\<lambda>j. elems ?x ! j * (1 / sqrt (d ! (j div (1 * 2))))) [0..<2 * 1 * 2])"
    and out: "out = model_apply scaled_env demo_params x_in (Tensor [2] (elems ?t)) True
                   (case Some ?c of None \<Rightarrow> None
                    | Some c \<Rightarrow> Some (tmap (\<lambda>v. v / train_data_std scaled_module) c))"
    and r: "r = Tensor [2, 1, 2]
                 (map (\<lambda>j. elems out ! j / sqrt (d ! (j div (1 * 2)))) [0..<2 * 1 * 2])"
    and s: "score scaled_env scaled_module ?x ?t (Some ?c) demo_params True = Some r"
    by blast
  have d': "d = [25, 16]"
    unfolding d sg sc std by simp
  have x_in': "x_in = Tensor [2, 1, 2] [1, 2, 1, 2]"
    unfolding x_in up d' by (simp add: sqrt_25 sqrt_16)
  have out': "out = Tensor [2, 1, 2] [6, 7, 6, 7]"
    unfolding out x_in' std by (simp add: ma tmap_def)
  have r': "r = Tensor [2, 1, 2] [6 / 5, 7 / 5, 3 / 2, 7 / 4]"
    unfolding r up d' out' by (simp add: sqrt_25 sqrt_16)
  show ?thesis
    using s unfolding r' by simp
qed

text \<open>
  A batch of one example with times for two: the schedule keeps the shape of \<open>t\<close> and the
  model that of its input, and the result has the shape \<open>(2, 1, 1)\<close>, not that of \<open>x\<close>.
\<close>

theorem score_shape_counterexample:
  "score demo_env demo_ready (Tensor [1, 1, 1] [3]) (Tensor [2, 1, 1] [1 / 2, 1 / 4]) None
     demo_params True = Some (Tensor [2, 1, 1] [3, 3]) \<and>
   shape (Tensor [2, 1, 1] [3, 3]) \<noteq> shape (Tensor [1, 1, 1] [3])"
proof -
  let ?t = "Tensor [2, 1, 1] [1 / 2, 1 / 4]"
  have sg: "diffusion_sigma demo_env ?t = Tensor [2, 1, 1] [0, 0]"
    and sc: "diffusion_scale demo_env ?t = Tensor [2, 1, 1] [1, 1]"
    and std: "train_data_std demo_ready = 1"
    and ma: "model_apply demo_env demo_params x' t' True None = x'" for x' t'
    by (simp_all add: demo_env_def demo_ready_def demo_module_def tmap_def)
  have d: "tadd (tmap (\<lambda>s. s ^ 2) (Tensor [2, 1, 1] [0, 0]))
                (tmap (\<lambda>s. (s * 1) ^ 2) (Tensor [2, 1, 1] [1, 1])) = Some (Tensor [2, 1, 1] [1, 1])"
    by (simp add: tadd_def tbin_same_shape wf_tensor_def tmap_def)
  have d': "tadd (tmap (\<lambda>s. s ^ 2) (Tensor [2, 1, 1] [0, 0]))
                (tmap (\<lambda>s. s ^ 2 * 1 ^ 2) (Tensor [2, 1, 1] [1, 1])) = Some (Tensor [2, 1, 1] [1, 1])"
    by (simp add: tadd_def tbin_same_shape wf_tensor_def tmap_def)
  have i: "tmap (\<lambda>v. 1 / sqrt v) (Tensor [2, 1, 1] [1, 1]) = Tensor [2, 1, 1] [1, 1]"
    "tmap sqrt (Tensor [2, 1, 1] [1, 1]) = Tensor [2, 1, 1] [1, 1]"
    by (simp_all add: tmap_def)
  have x: "tmul (Tensor [1, 1, 1] [3]) (Tensor [2, 1, 1] [1, 1]) = Some (Tensor [2, 1, 1] [3, 3])"
    by code_simp
  have q: "squeeze12 ?t = Some (Tensor [2] [1 / 2, 1 / 4])"
    by simp
  have r: "tdiv (Tensor [2, 1, 1] [3, 3]) (Tensor [2, 1, 1] [1, 1]) = Some (Tensor [2, 1, 1] [3, 3])"
    by (simp add: tdiv_def tbin_same_shape wf_tensor_def)
  have "score demo_env demo_ready (Tensor [1, 1, 1] [3]) ?t None demo_params True =
        Some (Tensor [2, 1, 1] [3, 3])"
    unfolding score_def Let_def sg sc std
    by (simp only: d d' i x q r ma Option.bind.simps option.case)
  then show ?thesis
    by simp
qed

section \<open>The two parameter sets keep one structure\<close>

lemma tadd_shape: "shape p = shape e \<Longrightarrow> tadd p e = Some q \<Longrightarrow> shape q = shape p"
  using tbin_shape[of "(+)" p e q] by (simp add: tadd_def broadcast_shapes_same)

lemma tadd_total: "shape p = shape e \<Longrightarrow> \<exists>q. tadd p e = Some q"
  using tbin_same_shape_ex[of p e "(+)"] by (auto simp: tadd_def)

lemma ema_update_total: "shape p = shape e \<Longrightarrow> \<exists>q. ema_update ts p e = Some q"
proof -
  assume s: "shape p = shape e"
  from tbin_same_shape_ex[OF s, of "(-)"] obtain d where
    d: "tsub p e = Some d" and sd: "shape d = shape p"
    by (auto simp: tsub_def)
  have "shape e = shape (tmap (\<lambda>v. v / ts) d)"
    using s sd by (simp add: shape_tmap)
  from tbin_same_shape_ex[OF this, of "(+)"] obtain q where
    "tadd e (tmap (\<lambda>v. v / ts) d) = Some q"
    by (auto simp: tadd_def)
  then show ?thesis
    by (simp add: ema_update_def d)
qed

lemma tadd_keeps_shape:
  "\<forall>p e q. shape p = shape e \<longrightarrow> tadd p e = Some q \<longrightarrow> shape q = shape p"
  by (intro allI impI) (rule tadd_shape)

lemma ema_update_keeps_shape:
  "\<forall>p e q. shape p = shape e \<longrightarrow> ema_update ts p e = Some q \<longrightarrow> shape q = shape p"
proof (intro allI impI)
  fix p e q assume s: "shape p = shape e" and u: "ema_update ts p e = Some q"
  from ema_update_shape[OF u s] s show "shape q = shape p" by simp
qed

lemma tadd_defined: "\<forall>p e. shape p = shape e \<longrightarrow> (\<exists>q. tadd p e = Some q)"
  by (intro allI impI) (rule tadd_total)

lemma ema_update_defined: "\<forall>p e. shape p = shape e \<longrightarrow> (\<exists>q. ema_update ts p e = Some q)"
  by (intro allI impI) (rule ema_update_total)

lemma step_same_structure:
  assumes contract: "same_structure (fst (optimizer_update env (grad_loss env k batch cond ps) os)) ps"
    and inv: "same_structure ps ps_ema"
    and st: "step env self k batch cond ps ps_ema os = Inr r"
  shows "same_structure (step_params r) (step_params_ema r)"
proof -
  let ?u = "fst (optimizer_update env (grad_loss env k batch cond ps) os)"
  from step_InrD[OF st] have
    a: "apply_updates ps ?u = Inr (step_params r)" and
    e: "tree_map2 (ema_update (ema_ts self)) (step_params r) ps_ema = Inr (step_params_ema r)"
    by blast+
  from a have ma: "map_leaves2 tadd ps ?u = Some (step_params r)"
    by (auto simp: apply_updates_def tree_map2_def split: if_splits option.splits)
  from e have me: "map_leaves2 (ema_update (ema_ts self)) (step_params r) ps_ema = Some (step_params_ema r)"
    by (auto simp: tree_map2_def split: if_splits option.splits)
  have su: "same_structure ps ?u"
    using contract by (rule same_structure_sym)
  have "same_structure ps (step_params r)"
    by (rule map_leaves2_same_structure[OF tadd_keeps_shape su ma])
  then have "same_structure (step_params r) ps"
    by (rule same_structure_sym)
  then have s2: "same_structure (step_params r) ps_ema"
    using inv by (rule same_structure_trans)
  show ?thesis
    by (rule map_leaves2_same_structure[OF ema_update_keeps_shape s2 me])
qed

lemma step_total:
  assumes contract: "same_structure (fst (optimizer_update env (grad_loss env k batch cond ps) os)) ps"
    and inv: "same_structure ps ps_ema"
    and l: "loss env self k batch cond ps = Inr lm"
  shows "\<exists>r. step env self k batch cond ps ps_ema os = Inr r"
proof -
  obtain updates os' where ou:
    "optimizer_update env (grad_loss env k batch cond ps) os = (updates, os')"
    by (cases "optimizer_update env (grad_loss env k batch cond ps) os")
  obtain lv m where lm: "lm = (lv, m)" by (cases lm)
  have su: "same_structure ps updates"
    using contract ou by (simp add: same_structure_sym)
  from map_leaves2_total[OF tadd_defined su] obtain ps' where
    ps': "map_leaves2 tadd ps updates = Some ps'"
    by blast
  have a: "apply_updates ps updates = Inr ps'"
    using su ps' by (simp add: apply_updates_def tree_map2_def same_structure_matches)
  have "same_structure ps ps'"
    by (rule map_leaves2_same_structure[OF tadd_keeps_shape su ps'])
  then have "same_structure ps' ps"
    by (rule same_structure_sym)
  then have s2: "same_structure ps' ps_ema"
    using inv by (rule same_structure_trans)
  from map_leaves2_total[OF ema_update_defined s2] obtain pe' where
    pe': "map_leaves2 (ema_update (ema_ts self)) ps' ps_ema = Some pe'"
    by blast
  have e: "tree_map2 (ema_update (ema_ts self)) ps' ps_ema = Inr pe'"
    using s2 pe' by (simp add: tree_map2_def same_structure_matches)
  show ?thesis
    by (simp add: step_def l lm ou a e bind_result_simps)
qed

text \<open>
  C6.  Suppose the optimiser's updates for the gradient of the loss have the keys and the
  leaf shapes of the parameters (the contract of \<open>jax.value_and_grad\<close> and of the optax
  optimisers).  Then: after \<open>setup\<close> for the stage \<open>fit\<close>, \<open>params_ema\<close> is \<open>params\<close>, so the two
  have the same keys and shapes; a \<open>step\<close> on two sets of the same keys and shapes returns
  two sets of the same keys and shapes, and its tree operations do not fail; and so does a
  training step on the module's own two sets.
\<close>

theorem ema_raw_same_structure:
  assumes "\<And>k b c ps os. same_structure (fst (optimizer_update env (grad_loss env k b c ps) os)) ps"
  shows "(\<forall>self'. setup_stage env self ''fit'' = Inr self' \<longrightarrow>
            (\<exists>p. params self' = Some p \<and> params_ema self' = Some p \<and> same_structure p p)) \<and>
         (\<forall>k batch cond ps ps_ema os r.
            same_structure ps ps_ema \<longrightarrow> step env self k batch cond ps ps_ema os = Inr r \<longrightarrow>
            same_structure (step_params r) (step_params_ema r)) \<and>
         (\<forall>k batch cond ps ps_ema os lm.
            same_structure ps ps_ema \<longrightarrow> loss env self k batch cond ps = Inr lm \<longrightarrow>
            (\<exists>r. step env self k batch cond ps ps_ema os = Inr r)) \<and>
         (\<forall>batch ps ps_ema self' out.
            params self = Some ps \<longrightarrow> params_ema self = Some ps_ema \<longrightarrow> same_structure ps ps_ema \<longrightarrow>
            training_step env self batch = Inr (self', out) \<longrightarrow>
            (\<exists>ps' ps_ema'. params self' = Some ps' \<and> params_ema self' = Some ps_ema' \<and>
               same_structure ps' ps_ema'))"
proof (intro conjI allI impI)
  fix self'
  assume "setup_stage env self ''fit'' = Inr self'"
  then show "\<exists>p. params self' = Some p \<and> params_ema self' = Some p \<and> same_structure p p"
    by (auto simp: setup_stage_def bind_result_Inr_iff Let_def same_structure_refl
             split: prod.splits)
next
  fix k batch cond ps ps_ema os r
  assume "same_structure ps ps_ema" "step env self k batch cond ps ps_ema os = Inr r"
  then show "same_structure (step_params r) (step_params_ema r)"
    using step_same_structure[OF assms] by blast
next
  fix k batch cond ps ps_ema os lm
  assume "same_structure ps ps_ema" "loss env self k batch cond ps = Inr lm"
  then show "\<exists>r. step env self k batch cond ps ps_ema os = Inr r"
    using step_total[OF assms] by blast
next
  fix batch ps ps_ema self' out
  assume p: "params self = Some ps" "params_ema self = Some ps_ema"
    and inv: "same_structure ps ps_ema"
    and ts: "training_step env self batch = Inr (self', out)"
  from training_step_InrD[OF ts] p obtain os r where
    st: "step env self (snd (random_split env (key self))) batch (cond_fn env batch) ps ps_ema os = Inr r"
    and s': "params self' = Some (step_params r)" "params_ema self' = Some (step_params_ema r)"
    by auto
  from step_same_structure[OF assms inv st] s'
  show "\<exists>ps' ps_ema'. params self' = Some ps' \<and> params_ema self' = Some ps_ema' \<and>
          same_structure ps' ps_ema'"
    by simp
qed

lemma map_leaves_same_structure: "same_structure (map_leaves (tmap f) a) a"
proof (induction a)
  case (Leaf a)
  show ?case by (simp add: shape_tmap)
next
  case (Node xs)
  have "same_items (map (\<lambda>(k, t). (k, map_leaves (tmap f) t)) ys) ys"
    if "set ys \<subseteq> set xs" for ys
    using that
  proof (induction ys)
    case Nil
    show ?case by simp
  next
    case (Cons y ys)
    obtain k t where y: "y = (k, t)" by (cases y)
    have "y \<in> set xs" using Cons.prems by simp
    moreover have "t \<in> Basic_BNFs.snds y" by (simp add: y)
    ultimately have "same_structure (map_leaves (tmap f) t) t"
      by (rule Node)
    then show ?case
      using Cons by (simp add: y)
  qed
  then show ?case by simp
qed

lemma demo_contract:
  "same_structure (fst (optimizer_update demo_env (grad_loss demo_env k b c ps) os)) ps"
  by (cases os) (simp add: demo_env_def demo_optimizer_update_def map_leaves_same_structure)

theorem ema_raw_same_structure_witness:
  "(\<exists>p. setup_stage demo_env demo_module ''fit'' =
           Inr (demo_module\<lparr> key := 1, params := Some p, params_ema := Some p \<rparr>) \<and>
        same_structure p p) \<and>
   same_structure demo_params demo_params \<and>
   (\<exists>self' out ps' ps_ema'. training_step demo_env demo_ready demo_batch = Inr (self', out) \<and>
      params self' = Some ps' \<and> params_ema self' = Some ps_ema' \<and> ps' \<noteq> ps_ema' \<and>
      same_structure ps' ps_ema')"
proof -
  note th = ema_raw_same_structure[of demo_env, OF demo_contract]
  have s: "setup_stage demo_env demo_module ''fit'' =
           Inr (demo_module\<lparr> key := 1, params := Some demo_params, params_ema := Some demo_params \<rparr>)"
    by (simp add: setup_stage_def model_init_def bind_result_def demo_env_def demo_module_def)
  from th[of demo_module, THEN conjunct1, rule_format, OF s]
  have 1: "same_structure demo_params demo_params"
    by simp
  have p: "params demo_ready = Some demo_params" "params_ema demo_ready = Some demo_params"
    by (simp_all add: demo_ready_def)
  from th[of demo_ready, THEN conjunct2, THEN conjunct2, THEN conjunct2, rule_format,
      OF p 1 demo_training_step]
  obtain ps' ps_ema' where 2:
    "params (fst (projr (training_step demo_env demo_ready demo_batch))) = Some ps'"
    "params_ema (fst (projr (training_step demo_env demo_ready demo_batch))) = Some ps_ema'"
    "same_structure ps' ps_ema'"
    by (auto simp: demo_training_step)
  have 3: "ps' \<noteq> ps_ema'"
    using 2(1,2) by (auto simp: demo_training_step)
  show ?thesis
    using s 1 2 3 demo_training_step by auto
qed

section \<open>The loss of the averaged parameters\<close>

lemma loss_InrD:
  assumes "loss env self k x_data cond ps = Inr (l, m)"
  shows "\<exists>n rest. shape x_data = n # rest \<and>
           flow_loss env self (loss_t env k n) (loss_xt env k x_data (loss_t env k n)) x_data cond ps = Some l \<and>
           m = [(''flow_loss'', l)]"
  using assms
  by (cases "shape x_data")
     (auto simp: loss_def Let_def bind_result_Inr_iff or_shape_error_Inr_iff)

text \<open>
  C7.  When a training step returns, its \<open>loss_ema\<close> is the value of \<open>loss\<close> (the loss alone, no
  gradient is taken) at the \<open>params_ema\<close> that \<open>step\<close> returned, which is the \<open>params_ema\<close> the
  module then holds, under the key \<open>key_train\<close> that was split off the module's key and passed
  to \<open>step\<close>.  The raw loss is the value of \<open>loss\<close> at the parameters before the update under
  the same key, and both are the weighted error at the same times \<open>t\<close> and the same noised
  input \<open>xt\<close>, which depend on the key and the batch only.
\<close>

theorem training_step_loss_ema_same_key:
  assumes "training_step env self batch = Inr (self', out)"
  shows "\<exists>ps ps_ema os r n rest.
           (let key_train = snd (random_split env (key self));
                cond = cond_fn env batch;
                t = loss_t env key_train n;
                xt = loss_xt env key_train batch t
            in params self = Some ps \<and> params_ema self = Some ps_ema \<and> opt_state self = Some os \<and>
               step env self key_train batch cond ps ps_ema os = Inr r \<and>
               params_ema self' = Some (step_params_ema r) \<and>
               loss env self key_train batch cond (step_params_ema r) =
                 Inr (out_loss_ema out, out_monitors_ema out) \<and>
               loss env self key_train batch cond ps = Inr (out_loss out, out_monitors out) \<and>
               shape batch = n # rest \<and>
               flow_loss env self t xt batch cond ps = Some (out_loss out) \<and>
               flow_loss env self t xt batch cond (step_params_ema r) = Some (out_loss_ema out))"
proof -
  let ?k = "snd (random_split env (key self))"
  let ?c = "cond_fn env batch"
  from training_step_InrD[OF assms] obtain ps ps_ema os r l_ema m_ema where
    p: "params self = Some ps" "params_ema self = Some ps_ema" "opt_state self = Some os"
    and st: "step env self ?k batch ?c ps ps_ema os = Inr r"
    and le: "loss env self ?k batch ?c (step_params_ema r) = Inr (l_ema, m_ema)"
    and s': "self' = self\<lparr> key := fst (random_split env (key self)), params := Some (step_params r),
                          params_ema := Some (step_params_ema r),
                          opt_state := Some (step_opt_state r) \<rparr>"
    and out: "out = \<lparr> out_loss = step_loss r, out_loss_ema = l_ema,
                   out_monitors = step_monitors r, out_monitors_ema = m_ema \<rparr>"
    by blast
  from step_InrD[OF st] have lr: "loss env self ?k batch ?c ps = Inr (step_loss r, step_monitors r)"
    by auto
  from loss_InrD[OF lr] obtain n rest where sh: "shape batch = n # rest"
    and fr: "flow_loss env self (loss_t env ?k n) (loss_xt env ?k batch (loss_t env ?k n)) batch ?c ps =
             Some (step_loss r)"
    by blast
  from loss_InrD[OF le] sh have
    fe: "flow_loss env self (loss_t env ?k n) (loss_xt env ?k batch (loss_t env ?k n)) batch ?c
           (step_params_ema r) = Some l_ema"
    by auto
  show ?thesis
    apply (rule exI[of _ ps], rule exI[of _ ps_ema], rule exI[of _ os], rule exI[of _ r],
           rule exI[of _ n], rule exI[of _ rest])
    apply (simp only: Let_def)
    apply (intro conjI)
    using p st le lr sh fr fe by (simp_all add: s' out)
qed

theorem training_step_loss_ema_same_key_witness:
  "\<exists>self' out pe.
     training_step demo_env demo_ready demo_batch = Inr (self', out) \<and>
     snd (random_split demo_env (key demo_ready)) = 4 \<and>
     params_ema self' = Some pe \<and> pe \<noteq> demo_params \<and>
     loss demo_env demo_ready 4 demo_batch None pe = Inr (out_loss_ema out, out_monitors_ema out) \<and>
     loss demo_env demo_ready 4 demo_batch None demo_params = Inr (out_loss out, out_monitors out)"
proof -
  have k: "snd (random_split demo_env (key demo_ready)) = 4"
    by (simp add: demo_env_def demo_ready_def)
  have c: "cond_fn demo_env demo_batch = None"
    by (simp add: demo_env_def)
  have p: "params demo_ready = Some demo_params"
    by (simp add: demo_ready_def)
  from training_step_loss_ema_same_key[OF demo_training_step]
  show ?thesis
    unfolding Let_def k c p
    by (auto simp: demo_training_step demo_step demo_params_def)
qed

section \<open>Saving a checkpoint\<close>

text \<open>
  C8.  A save, with both parameter sets present and whatever checkpointer it is given,
  passes \<open>params\<close> with the raw directory to the checkpointer and then, on the storage so
  written, \<open>params_ema\<close> with the EMA directory, each with \<open>force\<close> set.  If the first write
  raises, the save ends with that exception and the callback, the storage and the
  notifications are as before; if the second write raises, the save ends with that
  exception, the storage is the one the first write left, and the callback and the
  notifications are as before.  If both writes return, the save returns: the storage is
  the one the second write left, the callback records the trainer's step number and the
  path, and, in the primary process, every entry of the trainer's list of loggers is
  notified once, in order and after the notifications made before, with a weak proxy of
  the callback; in any other process no notification is made.  So the callback or the
  notifications differ from before only if both writes have returned.  With a checkpointer
  that, with \<open>force\<close> set, replaces what the two directories hold and does not raise, the
  save returns, the raw directory holds \<open>params\<close>, the EMA directory holds \<open>params_ema\<close> and
  every other directory is as before.
\<close>

theorem save_checkpoint_effects:
  assumes "params (lightning_module tr) = Some ps" "params_ema (lightning_module tr) = Some pe"
    and "save_checkpoint sv self tr w filepath = (failure, self', w')"
  shows "(\<forall>err. sv (storage_of w) (fst (get_checkpoint_directories filepath)) ps True = Inl err \<longrightarrow>
            failure = Some err \<and> self' = self \<and> w' = w) \<and>
         (\<forall>st1 err.
            sv (storage_of w) (fst (get_checkpoint_directories filepath)) ps True = Inr st1 \<and>
            sv st1 (snd (get_checkpoint_directories filepath)) pe True = Inl err \<longrightarrow>
            failure = Some err \<and> self' = self \<and> w' = w\<lparr> storage_of := st1 \<rparr>) \<and>
         (\<forall>st1 st2.
            sv (storage_of w) (fst (get_checkpoint_directories filepath)) ps True = Inr st1 \<and>
            sv st1 (snd (get_checkpoint_directories filepath)) pe True = Inr st2 \<longrightarrow>
            failure = None \<and> storage_of w' = st2 \<and> links w' = links w \<and>
            last_global_step_saved self' = global_step tr \<and>
            last_checkpoint_saved self' = filepath \<and>
            callback_id self' = callback_id self \<and>
            (is_global_zero tr \<longrightarrow>
               notifications w' =
                 notifications w @ map (\<lambda>l. (l, WeakProxy (callback_id self))) (loggers tr) \<and>
               (\<forall>l. count_list (map fst (drop (length (notifications w)) (notifications w'))) l =
                    count_list (loggers tr) l)) \<and>
            (\<not> is_global_zero tr \<longrightarrow> notifications w' = notifications w)) \<and>
         (self' \<noteq> self \<or> notifications w' \<noteq> notifications w \<longrightarrow>
            failure = None \<and>
            (\<exists>st1. sv (storage_of w) (fst (get_checkpoint_directories filepath)) ps True = Inr st1 \<and>
                   sv st1 (snd (get_checkpoint_directories filepath)) pe True = Inr (storage_of w'))) \<and>
         ((\<forall>st c. sv st (fst (get_checkpoint_directories filepath)) c True =
                    Inr (st(fst (get_checkpoint_directories filepath) \<mapsto> c))) \<and>
          (\<forall>st c. sv st (snd (get_checkpoint_directories filepath)) c True =
                    Inr (st(snd (get_checkpoint_directories filepath) \<mapsto> c))) \<longrightarrow>
            failure = None \<and>
            storage_of w' = (storage_of w)(fst (get_checkpoint_directories filepath) \<mapsto> ps,
                                           snd (get_checkpoint_directories filepath) \<mapsto> pe) \<and>
            storage_of w' (fst (get_checkpoint_directories filepath)) = Some ps \<and>
            storage_of w' (snd (get_checkpoint_directories filepath)) = Some pe \<and>
            (\<forall>x. x \<noteq> fst (get_checkpoint_directories filepath) \<and>
                 x \<noteq> snd (get_checkpoint_directories filepath) \<longrightarrow>
                 storage_of w' x = storage_of w x))"
proof -
  let ?d = "fst (get_checkpoint_directories filepath)"
  let ?e = "snd (get_checkpoint_directories filepath)"
  let ?self2 = "self\<lparr> last_global_step_saved := global_step tr, last_checkpoint_saved := filepath \<rparr>"
  let ?calls = "notifications w @
                  (if is_global_zero tr
                   then map (\<lambda>l. (l, WeakProxy (callback_id self))) (loggers tr) else [])"
  note pp = assms(1,2)
  have ne: "?d \<noteq> ?e"
    by (rule checkpoint_directories_distinct)
  have A: "failure = Some err \<and> self' = self \<and> w' = w"
    if "sv (storage_of w) ?d ps True = Inl err" for err
    using save_checkpoint_first_fails[where sv = sv and w = w and filepath = filepath and self = self, OF pp that] assms(3) by simp
  have B: "failure = Some err \<and> self' = self \<and> w' = w\<lparr> storage_of := st1 \<rparr>"
    if "sv (storage_of w) ?d ps True = Inr st1" "sv st1 ?e pe True = Inl err" for st1 err
    using save_checkpoint_second_fails[where sv = sv and w = w and filepath = filepath and self = self, OF pp that] assms(3) by simp
  have C0: "failure = None \<and> self' = ?self2 \<and> w' = w\<lparr> storage_of := st2, notifications := ?calls \<rparr>"
    if "sv (storage_of w) ?d ps True = Inr st1" "sv st1 ?e pe True = Inr st2" for st1 st2
    using save_checkpoint_succeeds[where sv = sv and w = w and filepath = filepath and self = self, OF pp that] assms(3) by simp
  have C: "failure = None \<and> storage_of w' = st2 \<and> links w' = links w \<and>
            last_global_step_saved self' = global_step tr \<and>
            last_checkpoint_saved self' = filepath \<and>
            callback_id self' = callback_id self \<and>
            (is_global_zero tr \<longrightarrow>
               notifications w' =
                 notifications w @ map (\<lambda>l. (l, WeakProxy (callback_id self))) (loggers tr) \<and>
               (\<forall>l. count_list (map fst (drop (length (notifications w)) (notifications w'))) l =
                    count_list (loggers tr) l)) \<and>
            (\<not> is_global_zero tr \<longrightarrow> notifications w' = notifications w)"
    if "sv (storage_of w) ?d ps True = Inr st1" "sv st1 ?e pe True = Inr st2" for st1 st2
    using C0[OF that] by (simp add: comp_def)
  have D: "failure = None \<and>
            (\<exists>st1. sv (storage_of w) ?d ps True = Inr st1 \<and> sv st1 ?e pe True = Inr (storage_of w'))"
    if ch: "self' \<noteq> self \<or> notifications w' \<noteq> notifications w"
  proof (cases "sv (storage_of w) ?d ps True")
    case (Inl err)
    from A[OF Inl] ch show ?thesis
      by simp
  next
    case (Inr st1)
    show ?thesis
    proof (cases "sv st1 ?e pe True")
      case (Inl err)
      from B[OF Inr Inl] ch show ?thesis
        by simp
    next
      case st2: (Inr st2)
      from C0[OF Inr st2] have "failure = None" "storage_of w' = st2"
        by simp_all
      with Inr st2 show ?thesis
        by simp
    qed
  qed
  have E: "failure = None \<and> storage_of w' = (storage_of w)(?d \<mapsto> ps, ?e \<mapsto> pe) \<and>
            storage_of w' ?d = Some ps \<and> storage_of w' ?e = Some pe \<and>
            (\<forall>x. x \<noteq> ?d \<and> x \<noteq> ?e \<longrightarrow> storage_of w' x = storage_of w x)"
    if c1: "\<forall>st c. sv st ?d c True = Inr (st(?d \<mapsto> c))"
      and c2: "\<forall>st c. sv st ?e c True = Inr (st(?e \<mapsto> c))"
  proof -
    have 1: "sv (storage_of w) ?d ps True = Inr ((storage_of w)(?d \<mapsto> ps))"
      using c1 by blast
    have 2: "sv ((storage_of w)(?d \<mapsto> ps)) ?e pe True = Inr ((storage_of w)(?d \<mapsto> ps, ?e \<mapsto> pe))"
      using c2 by blast
    from C0[OF 1 2] ne show ?thesis
      by simp
  qed
  show ?thesis
    using A B C D E by blast
qed

text \<open>
  On the concrete world the raw directory exists before the save: a write without \<open>force\<close>
  is refused, the save replaces it, and the two loggers of the primary process are
  notified once each.  In another process no logger is notified.  A save to the relative
  path \<open>rel/ckpt.tmp\<close> ends with the exception of the first write, and one whose checkpointer
  refuses the EMA directory with that of the second: neither records a step or a path nor
  notifies a logger.
\<close>

theorem save_checkpoint_effects_witness:
  "storage_of demo_world (fst (get_checkpoint_directories ''/a/b/ckpt.tmp'')) =
     Some (Leaf (Tensor [] [0])) \<and>
   demo_saver (storage_of demo_world) (fst (get_checkpoint_directories ''/a/b/ckpt.tmp''))
     demo_params False = Inl (ValueError ''Destination already exists'') \<and>
   (\<exists>self' w'.
      save_checkpoint demo_saver demo_callback demo_trainer demo_world ''/a/b/ckpt.tmp'' =
        (None, self', w') \<and>
      storage_of w' (fst (get_checkpoint_directories ''/a/b/ckpt.tmp'')) = Some demo_params \<and>
      storage_of w' (snd (get_checkpoint_directories ''/a/b/ckpt.tmp'')) = Some demo_params \<and>
      last_global_step_saved self' = 7 \<and> last_checkpoint_saved self' = ''/a/b/ckpt.tmp'' \<and>
      notifications w' = [(1, WeakProxy 5), (2, WeakProxy 5)]) \<and>
   (\<exists>self' w'.
      save_checkpoint demo_saver demo_callback (demo_trainer\<lparr> is_global_zero := False \<rparr>) demo_world
        ''/a/b/ckpt.tmp'' = (None, self', w') \<and>
      last_global_step_saved self' = 7 \<and> notifications w' = []) \<and>
   save_checkpoint demo_saver demo_callback demo_trainer demo_world ''rel/ckpt.tmp'' =
     (Some (ValueError ''Checkpoint path should be absolute''), demo_callback, demo_world) \<and>
   save_checkpoint
     (\<lambda>st directory ckpt force.
        if directory = snd (get_checkpoint_directories ''/a/b/ckpt.tmp'') then Inl FileNotFoundError
        else demo_saver st directory ckpt force)
     demo_callback demo_trainer demo_world ''/a/b/ckpt.tmp'' =
     (Some FileNotFoundError, demo_callback,
      demo_world\<lparr> storage_of :=
        (storage_of demo_world)(fst (get_checkpoint_directories ''/a/b/ckpt.tmp'') \<mapsto> demo_params) \<rparr>)"
proof -
  let ?p = "''/a/b/ckpt.tmp''"
  let ?q = "''rel/ckpt.tmp''"
  let ?d = "fst (get_checkpoint_directories ?p)"
  let ?e = "snd (get_checkpoint_directories ?p)"
  let ?sv = "\<lambda>st directory ckpt force.
        if directory = ?e then Inl FileNotFoundError else demo_saver st directory ckpt force"
  let ?tr = "demo_trainer\<lparr> is_global_zero := False \<rparr>"
  have d: "?d = parse_path ''/a/b/ckpt''"
    by code_simp
  have rd: "path_root ?d \<noteq> []" "path_root ?e \<noteq> []"
    by code_simp+
  have rq: "path_root (fst (get_checkpoint_directories ?q)) = []"
    by code_simp
  have ne: "?d \<noteq> ?e"
    by (rule checkpoint_directories_distinct)
  have 0: "storage_of demo_world ?d = Some (Leaf (Tensor [] [0]))"
    by (simp add: d demo_world_def)
  have nf: "demo_saver (storage_of demo_world) ?d demo_params False =
              Inl (ValueError ''Destination already exists'')"
    using rd(1) 0 by (simp add: demo_saver_def)
  have pp: "params (lightning_module demo_trainer) = Some demo_params"
    "params_ema (lightning_module demo_trainer) = Some demo_params"
    by (simp_all add: demo_trainer_def demo_ready_def)
  have pp': "params (lightning_module ?tr) = Some demo_params"
    "params_ema (lightning_module ?tr) = Some demo_params"
    by (simp_all add: demo_trainer_def demo_ready_def)
  have f: "global_step demo_trainer = 7" "is_global_zero demo_trainer"
    "loggers demo_trainer = [1, 2]" "callback_id demo_callback = 5"
    "notifications demo_world = []"
    by (simp_all add: demo_trainer_def demo_callback_def demo_world_def)
  have w1: "demo_saver st ?d c True = Inr (st(?d \<mapsto> c))" for st c
    using rd(1) by (simp add: demo_saver_def)
  have w2: "demo_saver st ?e c True = Inr (st(?e \<mapsto> c))" for st c
    using rd(2) by (simp add: demo_saver_def)
  have wq: "demo_saver (storage_of demo_world) (fst (get_checkpoint_directories ?q)) demo_params True =
              Inl (ValueError ''Checkpoint path should be absolute'')"
    using rq by (simp add: demo_saver_def)
  have v1: "?sv (storage_of demo_world) ?d demo_params True =
              Inr ((storage_of demo_world)(?d \<mapsto> demo_params))"
    using ne w1 by simp
  have v2: "?sv ((storage_of demo_world)(?d \<mapsto> demo_params)) ?e demo_params True =
              Inl FileNotFoundError"
    by simp
  obtain r1 s1 x1 where e1:
    "save_checkpoint demo_saver demo_callback demo_trainer demo_world ?p = (r1, s1, x1)"
    by (rule prod_cases3)
  obtain r2 s2 x2 where e2:
    "save_checkpoint demo_saver demo_callback ?tr demo_world ?p = (r2, s2, x2)"
    by (rule prod_cases3)
  obtain r3 s3 x3 where e3:
    "save_checkpoint demo_saver demo_callback demo_trainer demo_world ?q = (r3, s3, x3)"
    by (rule prod_cases3)
  obtain r4 s4 x4 where e4:
    "save_checkpoint ?sv demo_callback demo_trainer demo_world ?p = (r4, s4, x4)"
    by (rule prod_cases3)
  let ?st1 = "(storage_of demo_world)(?d \<mapsto> demo_params)"
  let ?st2 = "(storage_of demo_world)(?d \<mapsto> demo_params, ?e \<mapsto> demo_params)"
  have ok: "demo_saver (storage_of demo_world) ?d demo_params True = Inr ?st1 \<and>
            demo_saver ?st1 ?e demo_params True = Inr ?st2"
    by (simp only: w1 w2)
  note t1 = save_checkpoint_effects[OF pp e1, THEN conjunct2, THEN conjunct2, THEN conjunct1,
      rule_format, OF ok]
  have 1: "r1 = None \<and> storage_of x1 ?d = Some demo_params \<and> storage_of x1 ?e = Some demo_params \<and>
           last_global_step_saved s1 = 7 \<and> last_checkpoint_saved s1 = ?p \<and>
           notifications x1 = [(1, WeakProxy 5), (2, WeakProxy 5)]"
    using t1 ne by (simp add: f)
  note t2 = save_checkpoint_effects[OF pp' e2, THEN conjunct2, THEN conjunct2, THEN conjunct1,
      rule_format, OF ok]
  have 2: "r2 = None \<and> last_global_step_saved s2 = 7 \<and> notifications x2 = []"
    using t2 by (simp add: f demo_trainer_def)
  note t3 = save_checkpoint_effects[OF pp e3, THEN conjunct1, rule_format, OF wq]
  have 3: "r3 = Some (ValueError ''Checkpoint path should be absolute'') \<and> s3 = demo_callback \<and>
           x3 = demo_world"
    by (rule t3)
  note t4 = save_checkpoint_effects[OF pp e4, THEN conjunct2, THEN conjunct1, rule_format,
      OF conjI[OF v1 v2]]
  have 4: "r4 = Some FileNotFoundError \<and> s4 = demo_callback \<and>
           x4 = demo_world\<lparr> storage_of := (storage_of demo_world)(?d \<mapsto> demo_params) \<rparr>"
    by (rule t4)
  show ?thesis
    unfolding e1 e2 e3 e4 using 0 nf 1 2 3 4 by (intro conjI exI[of _ s1] exI[of _ x1] exI[of _ s2] exI[of _ x2]) simp_all
qed

section \<open>The default parameter set of sampling and likelihood\<close>



section \<open>The validation step\<close>

text \<open>
  C10.  When the configured monitor is not \<open>VAL_RELATIVE_ERROR_EMA\<close>: during the trainer's
  sanity check the validation step returns \<open>-1.0\<close> as \<open>loss_val\<close>; outside it, it returns the
  trainer's callback metric stored under the monitor's value, whatever the batch and the
  parameters are, and raises \<open>KeyError\<close> when no such metric is stored.  In both cases the
  module's key is replaced by the first half of its split.
\<close>

theorem validation_step_echoes_monitor:
  assumes "ckpt_monitor (cfg self) \<noteq> VAL_RELATIVE_ERROR_EMA"
  shows "(sanity_checking tr \<longrightarrow>
            validation_step env tr self batch =
              Inr (self\<lparr> key := fst (random_split env (key self)) \<rparr>, - 1)) \<and>
         (\<not> sanity_checking tr \<longrightarrow>
            validation_step env tr self batch =
              (case callback_metrics tr (monitor_value env (ckpt_monitor (cfg self))) of
                 None \<Rightarrow> Inl (KeyError (monitor_value env (ckpt_monitor (cfg self))))
               | Some m \<Rightarrow> Inr (self\<lparr> key := fst (random_split env (key self)) \<rparr>, m)))"
  using assms
  by (cases "random_split env (key self)")
     (simp add: validation_step_def Let_def get_item_def bind_result_def split: option.splits)

theorem validation_step_echoes_monitor_witness:
  "validation_step demo_env
     \<lparr> lightning_module = demo_ready, sanity_checking = True,
       callback_metrics = [''train_loss'' \<mapsto> 1 / 4], global_step = 0,
       is_global_zero = True, loggers = [] \<rparr> demo_ready demo_batch =
     Inr (demo_ready\<lparr> key := 3 \<rparr>, - 1) \<and>
   validation_step demo_env
     \<lparr> lightning_module = demo_ready, sanity_checking = False,
       callback_metrics = [''train_loss'' \<mapsto> 1 / 4], global_step = 0,
       is_global_zero = True, loggers = [] \<rparr> demo_ready demo_batch =
     Inr (demo_ready\<lparr> key := 3 \<rparr>, 1 / 4) \<and>
   validation_step demo_env
     \<lparr> lightning_module = demo_ready, sanity_checking = False,
       callback_metrics = Map.empty, global_step = 0,
       is_global_zero = True, loggers = [] \<rparr> demo_ready demo_batch =
     Inl (KeyError ''train_loss'')"
proof -
  have m: "ckpt_monitor (cfg demo_ready) \<noteq> VAL_RELATIVE_ERROR_EMA"
    by (simp add: demo_ready_def demo_module_def demo_cfg_def)
  have v: "monitor_value demo_env (ckpt_monitor (cfg demo_ready)) = ''train_loss''"
    by (simp add: demo_ready_def demo_module_def demo_cfg_def demo_env_def demo_monitor_value_def)
  have k: "fst (random_split demo_env (key demo_ready)) = 3"
    by (simp add: demo_ready_def demo_env_def)
  show ?thesis
    using validation_step_echoes_monitor[OF m, of
            "\<lparr> lightning_module = demo_ready, sanity_checking = True,
               callback_metrics = [''train_loss'' \<mapsto> 1 / 4], global_step = 0,
               is_global_zero = True, loggers = [] \<rparr>" demo_env demo_batch]
          validation_step_echoes_monitor[OF m, of
            "\<lparr> lightning_module = demo_ready, sanity_checking = False,
               callback_metrics = [''train_loss'' \<mapsto> 1 / 4], global_step = 0,
               is_global_zero = True, loggers = [] \<rparr>" demo_env demo_batch]
          validation_step_echoes_monitor[OF m, of
            "\<lparr> lightning_module = demo_ready, sanity_checking = False,
               callback_metrics = Map.empty, global_step = 0,
               is_global_zero = True, loggers = [] \<rparr>" demo_env demo_batch]
    by (simp add: v k)
qed

end
